theory Spec2Isabelle
  imports Complex_Main
begin

section \<open>Strings\<close>

text \<open>
  A JavaScript string is the sequence of its UTF-16 code units, modelled as a list of
  natural numbers; the texts of the messages and the words of the word lists are such
  strings. Identifiers, labels and the string literals of the code are only copied and
  compared, and are written as HOL strings; \<open>js\<close> gives the code units of a literal of
  ASCII characters. \<open>includes_str\<close> is \<open>String.prototype.includes\<close>: the argument occurs
  as a contiguous run of code units.
\<close>

type_synonym js_string = "nat list"

definition js :: "string \<Rightarrow> js_string" where
  "js s = map of_char s"

fun includes_str :: "js_string \<Rightarrow> js_string \<Rightarrow> bool" where
  "includes_str [] w = (w = [])"
| "includes_str (c # cs) w = (take (length w) (c # cs) = w \<or> includes_str cs w)"

text \<open>The code units matched by the regular expressions \<open>\s\<close> (the white space and line
  terminators of ECMAScript) and \<open>\w\<close> (ASCII letters, digits and the underscore).\<close>

definition isSpace :: "nat \<Rightarrow> bool" where
  "isSpace c =
     (c \<in> set [0x09, 0x0A, 0x0B, 0x0C, 0x0D, 0x20, 0xA0, 0x1680, 0x2028, 0x2029, 0x202F,
                0x205F, 0x3000, 0xFEFF] \<or>
      0x2000 \<le> c \<and> c \<le> 0x200A)"

definition isWordChar :: "nat \<Rightarrow> bool" where
  "isWordChar c =
     (0x30 \<le> c \<and> c \<le> 0x39 \<or> 0x41 \<le> c \<and> c \<le> 0x5A \<or> c = 0x5F \<or>
      0x61 \<le> c \<and> c \<le> 0x7A)"

text \<open>\<open>s.split(/\s+/)\<close>: the pieces between maximal runs of white space.\<close>

function split_ws :: "js_string \<Rightarrow> js_string list" where
  "split_ws s =
     (case dropWhile (\<lambda>c. \<not> isSpace c) s of
        [] \<Rightarrow> [s]
      | sp # rest \<Rightarrow> takeWhile (\<lambda>c. \<not> isSpace c) s # split_ws (dropWhile isSpace rest))"
  by pat_completeness auto
termination
proof (relation "measure length")
  show "wf (measure length)" by simp
next
  fix s :: js_string and sp rest
  assume d: "dropWhile (\<lambda>c. \<not> isSpace c) s = sp # rest"
  have "length (dropWhile isSpace rest) \<le> length rest"
    by (rule length_dropWhile_le)
  also have "length rest < length (sp # rest)" by simp
  also have "length (sp # rest) \<le> length s"
    unfolding d [symmetric] by (rule length_dropWhile_le)
  finally show "(dropWhile isSpace rest, s) \<in> measure length" by simp
qed

declare split_ws.simps [simp del]

section \<open>Data model\<close>

text \<open>
  Confidences are JavaScript numbers; they are only compared and stored, so they are
  modelled as \<open>real\<close>. Dates are points of a clock, modelled as \<open>nat\<close>.
\<close>

type_synonym buffer = string

datatype exn = TypeError | DuplicateKey | ValidationError

datatype message_type = Text | Image | Video | Audio | Document

datatype moderation_status = Pending | Approved | Blocked | Error

record moderation_settings =
  hateSpeechEnabled :: bool
  nudityEnabled :: bool
  violenceEnabled :: bool
  autoBlock :: bool
  customBlockedWords :: "js_string list"
  customAllowedWords :: "js_string list"

record user =
  user_id :: nat
  whatsappNumber :: string
  moderationSettings :: moderation_settings

text \<open>A category of the text classifier: one of the strings of the \<open>categories\<close> table
  or \<open>'other'\<close>, or, for a label that names a member of \<open>Object.prototype\<close>, that
  inherited member (a function or an object, not a string).\<close>

datatype category_value = Category string | Inherited string

record hate_speech =
  hs_detected :: bool
  hs_confidence :: real
  hs_category :: "category_value option"

record category_result =
  detected :: bool
  confidence :: real
  category :: "string option"

record content_moderation =
  nudity :: category_result
  violence :: category_result
  explicit :: category_result

record transcription_info =
  tr_text :: js_string
  tr_confidence :: real
  tr_language :: string

text \<open>The object the \<open>process...Message\<close> functions return and the pipeline stores as
  \<open>message.moderation\<close>. The model stores the object as returned, with the copy of the
  transcription that the schema of \<open>moderation\<close> does not declare.\<close>

record moderation_result =
  status :: moderation_status
  reason :: "string option"
  hateSpeech :: "hate_speech option"
  contentModeration :: "content_moderation option"
  res_transcription :: "transcription_info option"

definition result_of :: "moderation_status \<Rightarrow> moderation_result" where
  "result_of st =
     \<lparr>status = st, reason = None, hateSpeech = None, contentModeration = None,
      res_transcription = None\<rparr>"

record message_content =
  content_text :: "js_string option"
  mediaId :: "string option"

text \<open>What is assigned to \<open>response.content\<close>, a path the schema declares a String: a
  string, or an object such as the body of an HTTP response.\<close>

datatype response_content = ContentString string | ContentObject

record message_response =
  sent :: bool
  response_messageId :: string
  response_content :: response_content
  sentAt :: nat

record message =
  message_id :: nat
  userId :: nat
  whatsappMessageId :: string
  msg_from :: string
  msg_to :: string
  messageType :: message_type
  content :: message_content
  transcription :: "transcription_info option"
  moderation :: moderation_result
  response :: "message_response option"
  metadata_timestamp :: nat
  metadata_status :: string

datatype word_status = WordPending | WordApproved | WordRejected | WordIgnored

record user_decision =
  markedAsHateSpeech :: bool
  decisionDate :: "nat option"
  decisionReason :: "string option"

record new_word =
  new_word_id :: nat
  nw_userId :: nat
  nw_word :: js_string
  originalText :: js_string
  frequency :: nat
  firstDetected :: nat
  lastDetected :: nat
  nw_confidence :: real
  nw_status :: word_status
  userDecision :: user_decision
  nw_updatedAt :: nat

section \<open>The outside world\<close>

text \<open>
  Every external capability is a function of the request that gives the service's answer,
  \<open>None\<close> when the HTTP request fails, times out or its body is not of the expected
  shape (the adapters catch these and return \<open>success: false\<close>). Processing one message
  calls each capability at most once. \<open>now\<close> is the value of \<open>new Date()\<close>.

  Two functions of the platform are parameters too, and nothing is assumed of them:
  \<open>toLowerCase\<close> is \<open>String.prototype.toLowerCase\<close>, and \<open>regex_i pattern text\<close> is the
  database's test of a stored text against \<open>{ $regex: pattern, $options: 'i' }\<close>.
\<close>

record whisper_response =
  whisper_text :: js_string
  whisper_language :: "string option"

datatype likelihood = VERY_LIKELY | LIKELY | POSSIBLE | UNLIKELY | VERY_UNLIKELY | UNKNOWN

record safe_search =
  adult :: likelihood
  ss_violence :: likelihood
  racy :: likelihood

record world =
  now :: nat
  toLowerCase :: "js_string \<Rightarrow> js_string"
  regex_i :: "js_string \<Rightarrow> js_string \<Rightarrow> bool"
  downloadMedia :: "string option \<Rightarrow> buffer option"
  transcribeAudio :: "buffer \<Rightarrow> whisper_response option"
  toxic_bert :: "js_string option \<Rightarrow> (string \<times> real) list option"
  vision_annotate :: "buffer \<Rightarrow> safe_search option"
  azure_submit :: "buffer \<Rightarrow> string option option"
  sendTextMessage :: "string \<Rightarrow> string \<Rightarrow> string option"

datatype call =
    CallDownloadMedia "string option"
  | CallTranscribeAudio buffer
  | CallDetectHateSpeech "js_string option"
  | CallModerateImage buffer
  | CallModerateVideo buffer
  | CallSendText string string

text \<open>The databases (the Message and NewWord collections) and the log of the calls made
  to the outside world.\<close>

record state =
  messages :: "message list"
  newWords :: "new_word list"
  calls :: "call list"

definition log_call :: "call \<Rightarrow> state \<Rightarrow> state" where
  "log_call c s = s\<lparr>calls := calls s @ [c]\<rparr>"

section \<open>Hate speech detection (services/hateSpeechDetection.js)\<close>

definition categories :: "(string \<times> string) list" where
  "categories =
     [(''toxic'', ''hate_speech''), (''severe_toxic'', ''hate_speech''),
      (''obscene'', ''explicit_content''), (''threat'', ''violence''),
      (''insult'', ''hate_speech''), (''identity_hate'', ''hate_speech'')]"

text \<open>The names that every object inherits from \<open>Object.prototype\<close>; each of them is a
  function or an object, so it is truthy.\<close>

definition object_prototype_members :: "string list" where
  "object_prototype_members =
     [''constructor'', ''__defineGetter__'', ''__defineSetter__'', ''hasOwnProperty'',
      ''__lookupGetter__'', ''__lookupSetter__'', ''isPrototypeOf'', ''propertyIsEnumerable'',
      ''toString'', ''valueOf'', ''__proto__'', ''toLocaleString'']"

text \<open>\<open>categories[result.label] || 'other'\<close>.\<close>

definition category_of :: "string \<Rightarrow> category_value" where
  "category_of label =
     (case map_of categories label of
        Some c \<Rightarrow> Category c
      | None \<Rightarrow>
          if label \<in> set object_prototype_members then Inherited label
          else Category ''other'')"

record detected_category =
  dc_category :: category_value
  dc_label :: string
  dc_confidence :: real

text \<open>The \<open>results.forEach\<close> loop, on the variables \<open>detectedCategories\<close>,
  \<open>maxConfidence\<close> and \<open>primaryCategory\<close>.\<close>

fun forEach_result ::
  "(string \<times> real) list \<Rightarrow> detected_category list \<times> real \<times> category_value option \<Rightarrow>
   detected_category list \<times> real \<times> category_value option" where
  "forEach_result [] acc = acc"
| "forEach_result ((label, score) # rest) (detectedCategories, maxConfidence, primaryCategory) =
     (if score > 0.5 then
        forEach_result rest
          (detectedCategories @
             [\<lparr>dc_category = category_of label, dc_label = label, dc_confidence = score\<rparr>],
           if score > maxConfidence then score else maxConfidence,
           if score > maxConfidence then Some (category_of label) else primaryCategory)
      else forEach_result rest (detectedCategories, maxConfidence, primaryCategory))"

record hate_speech_result =
  hsr_detected :: bool
  hsr_confidence :: real
  hsr_primaryCategory :: "category_value option"
  hsr_categories :: "detected_category list"

text \<open>\<open>None\<close> is the result \<open>{success: false}\<close> of the \<open>catch\<close> branch.\<close>

definition detectHateSpeech ::
  "world \<Rightarrow> js_string option \<Rightarrow> hate_speech_result option" where
  "detectHateSpeech w text =
     (case toxic_bert w text of
        None \<Rightarrow> None
      | Some results \<Rightarrow>
          (case forEach_result results ([], 0, None) of
             (detectedCategories, maxConfidence, primaryCategory) \<Rightarrow>
               Some \<lparr>hsr_detected = (length detectedCategories > 0),
                     hsr_confidence = maxConfidence,
                     hsr_primaryCategory = primaryCategory,
                     hsr_categories = detectedCategories\<rparr>))"

section \<open>The NewWord model (models/NewWord.js)\<close>

definition fresh_id :: "nat list \<Rightarrow> nat" where
  "fresh_id ids = Suc (fold max ids 0)"

text \<open>\<open>doc.save()\<close> on the NewWord collection: insert a new document, or replace the
  stored one with the same \<open>_id\<close>.\<close>

definition save_new_word :: "new_word \<Rightarrow> new_word list \<Rightarrow> new_word list" where
  "save_new_word nw ws =
     (if new_word_id nw \<in> set (map new_word_id ws)
      then map (\<lambda>d. if new_word_id d = new_word_id nw then nw else d) ws
      else ws @ [nw])"

definition incrementFrequency :: "nat \<Rightarrow> new_word \<Rightarrow> new_word" where
  "incrementFrequency t nw =
     nw\<lparr>frequency := frequency nw + 1, lastDetected := t, nw_updatedAt := t\<rparr>"

definition markAsHateSpeech :: "nat \<Rightarrow> string \<Rightarrow> new_word \<Rightarrow> new_word" where
  "markAsHateSpeech t rsn nw =
     nw\<lparr>nw_status := WordApproved,
        userDecision := \<lparr>markedAsHateSpeech = True, decisionDate = Some t,
                         decisionReason = Some rsn\<rparr>,
        nw_updatedAt := t\<rparr>"

definition ignoreWord :: "nat \<Rightarrow> string \<Rightarrow> new_word \<Rightarrow> new_word" where
  "ignoreWord t rsn nw =
     nw\<lparr>nw_status := WordIgnored,
        userDecision := \<lparr>markedAsHateSpeech = False, decisionDate = Some t,
                         decisionReason = Some rsn\<rparr>,
        nw_updatedAt := t\<rparr>"

definition rejectWord :: "nat \<Rightarrow> string \<Rightarrow> new_word \<Rightarrow> new_word" where
  "rejectWord t rsn nw =
     nw\<lparr>nw_status := WordRejected,
        userDecision := \<lparr>markedAsHateSpeech = False, decisionDate = Some t,
                         decisionReason = Some rsn\<rparr>,
        nw_updatedAt := t\<rparr>"

section \<open>Learning new words (checkForNewWords in routes/webhook.js)\<close>

definition commonWords :: "js_string list" where
  "commonWords =
     map js [''the'', ''a'', ''an'', ''and'', ''or'', ''but'', ''in'', ''on'', ''at'', ''to'',
             ''for'', ''of'', ''with'', ''by'']"

text \<open>The query for the user's blocked messages whose text matches the word as a regular
  expression, case insensitively; a message without a text does not match.\<close>

definition find_blocked_messages ::
  "world \<Rightarrow> nat \<Rightarrow> js_string \<Rightarrow> message list \<Rightarrow> message list" where
  "find_blocked_messages w uid cleanWord ms =
     filter (\<lambda>m. userId m = uid \<and> status (moderation m) = Blocked \<and>
                  (case content_text (content m) of
                     None \<Rightarrow> False
                   | Some t \<Rightarrow> regex_i w cleanWord t)) ms"

definition find_new_word :: "nat \<Rightarrow> js_string \<Rightarrow> new_word list \<Rightarrow> new_word option" where
  "find_new_word uid wrd ws = find (\<lambda>d. nw_userId d = uid \<and> nw_word d = wrd) ws"

text \<open>The body of the loop over the words. The word is stored as it is: it has no white
  space and comes from a lower-cased text, so the \<open>trim\<close> and \<open>lowercase\<close> setters of the
  NewWord schema have nothing to change.\<close>

definition check_word :: "world \<Rightarrow> js_string \<Rightarrow> user \<Rightarrow> js_string \<Rightarrow> state \<Rightarrow> state" where
  "check_word w text usr wrd s =
     (let cleanWord = filter isWordChar wrd in
      if length cleanWord > 2 \<and> cleanWord \<notin> set commonWords then
        (let blockedMessages = find_blocked_messages w (user_id usr) cleanWord (messages s) in
         if length blockedMessages \<ge> 3 then
           (case find_new_word (user_id usr) cleanWord (newWords s) of
              None \<Rightarrow>
                s\<lparr>newWords := save_new_word
                   \<lparr>new_word_id = fresh_id (map new_word_id (newWords s)),
                    nw_userId = user_id usr, nw_word = cleanWord, originalText = text,
                    frequency = length blockedMessages, firstDetected = now w,
                    lastDetected = now w, nw_confidence = 0.7, nw_status = WordPending,
                    userDecision = \<lparr>markedAsHateSpeech = False, decisionDate = None,
                                    decisionReason = None\<rparr>,
                    nw_updatedAt = now w\<rparr> (newWords s)\<rparr>
            | Some newWord \<Rightarrow>
                s\<lparr>newWords := save_new_word (incrementFrequency (now w) newWord) (newWords s)\<rparr>)
         else s)
      else s)"

text \<open>\<open>text.toLowerCase()\<close> throws a TypeError when the text is undefined.\<close>

definition checkForNewWords ::
  "world \<Rightarrow> js_string option \<Rightarrow> user \<Rightarrow> state \<Rightarrow> exn + state" where
  "checkForNewWords w text usr s =
     (case text of
        None \<Rightarrow> Inl TypeError
      | Some t \<Rightarrow> Inr (fold (check_word w t usr) (split_ws (toLowerCase w t)) s))"

section \<open>The text policy (processTextMessage in routes/webhook.js)\<close>

text \<open>The test of one word list,
  \<open>words.some(word => text.toLowerCase().includes(word.toLowerCase()))\<close>, on a text that is
  defined.\<close>

definition contains_term :: "world \<Rightarrow> js_string \<Rightarrow> js_string list \<Rightarrow> bool" where
  "contains_term w t wrds =
     list_ex (\<lambda>wrd. includes_str (toLowerCase w t) (toLowerCase w wrd)) wrds"

text \<open>On an undefined text the callback throws; it runs only when there is a word to
  test.\<close>

definition some_includes :: "world \<Rightarrow> js_string option \<Rightarrow> js_string list \<Rightarrow> exn + bool" where
  "some_includes w text wrds =
     (case text of
        None \<Rightarrow> (if wrds = [] then Inr False else Inl TypeError)
      | Some t \<Rightarrow> Inr (contains_term w t wrds))"

definition processTextMessage ::
  "world \<Rightarrow> message \<Rightarrow> user \<Rightarrow> state \<Rightarrow> (exn + moderation_result) \<times> state" where
  "processTextMessage w msg usr s =
     (let text = content_text (content msg) in
      case some_includes w text (customBlockedWords (moderationSettings usr)) of
        Inl e \<Rightarrow> (Inl e, s)
      | Inr hasBlockedWords \<Rightarrow>
          if hasBlockedWords then
            (Inr ((result_of Blocked)
                   \<lparr>reason := Some ''custom_word'',
                    hateSpeech := Some \<lparr>hs_detected = True, hs_confidence = 1.0,
                                        hs_category = Some (Category ''custom'')\<rparr>\<rparr>), s)
          else
            (case some_includes w text (customAllowedWords (moderationSettings usr)) of
               Inl e \<Rightarrow> (Inl e, s)
             | Inr hasAllowedWords \<Rightarrow>
                 if hasAllowedWords then (Inr (result_of Approved), s)
                 else
                   (let s1 = log_call (CallDetectHateSpeech text) s in
                    case detectHateSpeech w text of
                      None \<Rightarrow>
                        (Inr ((result_of Error)
                               \<lparr>reason := Some ''hate_speech_detection_failed''\<rparr>), s1)
                    | Some hateSpeechResult \<Rightarrow>
                        if hsr_detected hateSpeechResult \<and>
                           hateSpeechEnabled (moderationSettings usr)
                        then
                          (Inr ((result_of Blocked)
                                 \<lparr>reason := Some ''hate_speech'',
                                  hateSpeech := Some
                                    \<lparr>hs_detected = True,
                                     hs_confidence = hsr_confidence hateSpeechResult,
                                     hs_category = hsr_primaryCategory hateSpeechResult\<rparr>\<rparr>),
                           s1)
                        else
                          (case checkForNewWords w text usr s1 of
                             Inl e \<Rightarrow> (Inl e, s1)
                           | Inr s2 \<Rightarrow> (Inr (result_of Approved), s2)))))"

section \<open>Media moderation (services/contentModeration.js)\<close>

definition getConfidenceScore :: "likelihood \<Rightarrow> real" where
  "getConfidenceScore level =
     (case level of
        VERY_LIKELY \<Rightarrow> 0.9
      | LIKELY \<Rightarrow> 0.7
      | POSSIBLE \<Rightarrow> 0.5
      | UNLIKELY \<Rightarrow> 0.3
      | VERY_UNLIKELY \<Rightarrow> 0.1
      | UNKNOWN \<Rightarrow> 0.5)"

definition annotation_result :: "likelihood \<Rightarrow> string \<Rightarrow> category_result" where
  "annotation_result level name =
     \<lparr>detected = (level = LIKELY \<or> level = VERY_LIKELY),
      confidence = getConfidenceScore level,
      category = Some name\<rparr>"

definition moderateImage :: "world \<Rightarrow> buffer \<Rightarrow> content_moderation option" where
  "moderateImage w imageBuffer =
     (case vision_annotate w imageBuffer of
        None \<Rightarrow> None
      | Some safeSearch \<Rightarrow>
          Some \<lparr>nudity = annotation_result (adult safeSearch) ''adult'',
                violence = annotation_result (ss_violence safeSearch) ''violence'',
                explicit = annotation_result (racy safeSearch) ''racy''\<rparr>)"

definition pollVideoResults :: "string option \<Rightarrow> content_moderation" where
  "pollVideoResults jobId =
     \<lparr>nudity = \<lparr>detected = False, confidence = 0.1, category = None\<rparr>,
      violence = \<lparr>detected = False, confidence = 0.1, category = None\<rparr>,
      explicit = \<lparr>detected = False, confidence = 0.1, category = None\<rparr>\<rparr>"

definition moderateVideo :: "world \<Rightarrow> buffer \<Rightarrow> content_moderation option" where
  "moderateVideo w videoBuffer =
     (case azure_submit w videoBuffer of
        None \<Rightarrow> None
      | Some jobId \<Rightarrow> Some (pollVideoResults jobId))"

definition moderateMedia :: "world \<Rightarrow> buffer \<Rightarrow> message_type \<Rightarrow> content_moderation option" where
  "moderateMedia w mediaBuffer mediaType =
     (if mediaType = Image then moderateImage w mediaBuffer
      else if mediaType = Video then moderateVideo w mediaBuffer
      else None)"

text \<open>The request \<open>moderateMedia\<close> sends: one for an image, one for a video, none for
  an unsupported type.\<close>

definition moderateMedia_calls :: "buffer \<Rightarrow> message_type \<Rightarrow> call list" where
  "moderateMedia_calls mediaBuffer mediaType =
     (if mediaType = Image then [CallModerateImage mediaBuffer]
      else if mediaType = Video then [CallModerateVideo mediaBuffer]
      else [])"

section \<open>The media policy (processMediaMessage in routes/webhook.js)\<close>

text \<open>The three checks run one after the other on the variables \<open>shouldBlock\<close> and
  \<open>reason\<close>; \<open>media_decision\<close> gives their values after the last check.\<close>

definition media_decision :: "content_moderation \<Rightarrow> moderation_settings \<Rightarrow> bool \<times> string" where
  "media_decision cm cfg =
     (let (shouldBlock0, reason0) = (False, []);
          (shouldBlock1, reason1) =
             (if detected (nudity cm) \<and> nudityEnabled cfg then (True, ''nudity'')
              else (shouldBlock0, reason0));
          (shouldBlock2, reason2) =
             (if detected (violence cm) \<and> violenceEnabled cfg then (True, ''violence'')
              else (shouldBlock1, reason1));
          (shouldBlock3, reason3) =
             (if detected (explicit cm) then (True, ''explicit_content'')
              else (shouldBlock2, reason2))
      in (shouldBlock3, reason3))"

definition processMediaMessage ::
  "world \<Rightarrow> message \<Rightarrow> user \<Rightarrow> state \<Rightarrow> moderation_result \<times> state" where
  "processMediaMessage w msg usr s =
     (let s1 = log_call (CallDownloadMedia (mediaId (content msg))) s in
      case downloadMedia w (mediaId (content msg)) of
        None \<Rightarrow> ((result_of Error)\<lparr>reason := Some ''media_download_failed''\<rparr>, s1)
      | Some mediaData \<Rightarrow>
          (let s2 = s1\<lparr>calls := calls s1 @ moderateMedia_calls mediaData (messageType msg)\<rparr> in
           case moderateMedia w mediaData (messageType msg) of
             None \<Rightarrow> ((result_of Error)\<lparr>reason := Some ''media_moderation_failed''\<rparr>, s2)
           | Some cm \<Rightarrow>
               (case media_decision cm (moderationSettings usr) of
                  (shouldBlock, rsn) \<Rightarrow>
                    if shouldBlock then
                      ((result_of Blocked)\<lparr>reason := Some rsn, contentModeration := Some cm\<rparr>,
                       s2)
                    else ((result_of Approved)\<lparr>contentModeration := Some cm\<rparr>, s2))))"

section \<open>Voice messages (processAudioMessage in routes/webhook.js)\<close>

text \<open>The function stores the transcription in the message it was given, so the model
  returns the message too. An exception of the text policy is caught here.\<close>

definition processAudioMessage ::
  "world \<Rightarrow> message \<Rightarrow> user \<Rightarrow> state \<Rightarrow> moderation_result \<times> message \<times> state" where
  "processAudioMessage w msg usr s =
     (let s1 = log_call (CallDownloadMedia (mediaId (content msg))) s in
      case downloadMedia w (mediaId (content msg)) of
        None \<Rightarrow> ((result_of Error)\<lparr>reason := Some ''audio_download_failed''\<rparr>, msg, s1)
      | Some audioData \<Rightarrow>
          (let s2 = log_call (CallTranscribeAudio audioData) s1 in
           case transcribeAudio w audioData of
             None \<Rightarrow> ((result_of Error)\<lparr>reason := Some ''transcription_failed''\<rparr>, msg, s2)
           | Some transcriptionResult \<Rightarrow>
               (let msg1 = msg\<lparr>transcription := Some
                        \<lparr>tr_text = whisper_text transcriptionResult,
                         tr_confidence = 0.8,
                         tr_language =
                           (case whisper_language transcriptionResult of
                              None \<Rightarrow> ''en''
                            | Some l \<Rightarrow> if l = [] then ''en'' else l)\<rparr>\<rparr>
                in case processTextMessage w msg1 usr s2 of
                     (Inl e, s3) \<Rightarrow>
                       ((result_of Error)\<lparr>reason := Some ''audio_processing_failed''\<rparr>, msg1, s3)
                   | (Inr textModeration, s3) \<Rightarrow>
                       if status textModeration = Blocked then
                         (textModeration\<lparr>res_transcription := transcription msg1\<rparr>, msg1, s3)
                       else
                         ((result_of Approved)\<lparr>res_transcription := transcription msg1\<rparr>,
                          msg1, s3))))"

section \<open>The Message collection (models/Message.js)\<close>

text \<open>Of the validators of the schema the model has the one that the pipeline itself can
  violate: an object cannot be cast to the String that \<open>response.content\<close> is declared
  to be. The other validators are taken to be satisfied.\<close>

definition valid_message :: "message \<Rightarrow> bool" where
  "valid_message m =
     (case response m of
        None \<Rightarrow> True
      | Some r \<Rightarrow> response_content r \<noteq> ContentObject)"

text \<open>\<open>doc.save()\<close>: validate the document, then insert it, or replace the stored one with
  the same \<open>_id\<close>. The unique index on \<open>whatsappMessageId\<close> refuses a write that would
  give two documents the same value.\<close>

definition save_message :: "message \<Rightarrow> message list \<Rightarrow> exn + message list" where
  "save_message m ms =
     (if \<not> valid_message m then Inl ValidationError
      else if list_ex (\<lambda>d. message_id d \<noteq> message_id m \<and>
                            whatsappMessageId d = whatsappMessageId m) ms
      then Inl DuplicateKey
      else if message_id m \<in> set (map message_id ms)
      then Inr (map (\<lambda>d. if message_id d = message_id m then m else d) ms)
      else Inr (ms @ [m]))"

text \<open>\<open>shouldBlock\<close>, a method of the Message model with thresholds of its own (0.7 for
  hate speech, 0.8 for the media categories) and the first matching category as the reason.
  No route calls it; the pipeline below decides without it. A nested object that was never
  set reads as \<open>detected\<close> undefined, which is falsy.\<close>

definition shouldBlock :: "moderation_result \<Rightarrow> bool \<times> string option" where
  "shouldBlock m =
     (if (case hateSpeech m of
            None \<Rightarrow> False
          | Some h \<Rightarrow> hs_detected h \<and> hs_confidence h > 0.7)
      then (True, Some ''hate_speech'')
      else if (case contentModeration m of
                 None \<Rightarrow> False
               | Some c \<Rightarrow> detected (nudity c) \<and> confidence (nudity c) > 0.8)
      then (True, Some ''nudity'')
      else if (case contentModeration m of
                 None \<Rightarrow> False
               | Some c \<Rightarrow> detected (violence c) \<and> confidence (violence c) > 0.8)
      then (True, Some ''violence'')
      else if (case contentModeration m of
                 None \<Rightarrow> False
               | Some c \<Rightarrow> detected (explicit c) \<and> confidence (explicit c) > 0.8)
      then (True, Some ''explicit_content'')
      else (False, None))"

section \<open>After the verdict (routes/webhook.js, services/whatsappService.js)\<close>

definition responses :: "(string \<times> string) list" where
  "responses =
     [(''hate_speech'', ''Your message was blocked due to detected hate speech. Please ensure your messages are respectful and inclusive.''),
      (''nudity'', ''Your message was blocked due to inappropriate content. Please keep messages family-friendly.''),
      (''violence'', ''Your message was blocked due to violent content. Please ensure messages are peaceful and non-threatening.''),
      (''explicit_content'', ''Your message was blocked due to explicit content. Please keep messages appropriate for all audiences.''),
      (''custom_word'', ''Your message was blocked due to content that violates our community guidelines.'')]"

definition responseText :: "string option \<Rightarrow> string" where
  "responseText rsn =
     (case (case rsn of None \<Rightarrow> None | Some r \<Rightarrow> map_of responses r) of
        Some t \<Rightarrow> t
      | None \<Rightarrow> ''Your message was blocked due to content that violates our community guidelines.'')"

text \<open>\<open>sendModerationResponse\<close> sends the text of the reason. When it succeeds, the reply
  is put into \<open>message.response\<close> with the body of the HTTP response, an object, as its
  \<open>content\<close>, and the message is saved.\<close>

definition handleBlockedMessage ::
  "world \<Rightarrow> message \<Rightarrow> user \<Rightarrow> state \<Rightarrow> (exn + unit) \<times> state" where
  "handleBlockedMessage w msg usr s =
     (if autoBlock (moderationSettings usr) then
        (let body = responseText (reason (moderation msg));
             s1 = log_call (CallSendText (msg_from msg) body) s
         in case sendTextMessage w (msg_from msg) body of
              None \<Rightarrow> (Inr (), s1)
            | Some sentId \<Rightarrow>
                (case save_message
                        (msg\<lparr>response := Some \<lparr>sent = True, response_messageId = sentId,
                                                 response_content = ContentObject,
                                                 sentAt = now w\<rparr>\<rparr>) (messages s1) of
                   Inl e \<Rightarrow> (Inl e, s1)
                 | Inr ms \<Rightarrow> (Inr (), s1\<lparr>messages := ms\<rparr>)))
      else (Inr (), s))"

definition handleApprovedMessage ::
  "message \<Rightarrow> user \<Rightarrow> state \<Rightarrow> (exn + unit) \<times> state" where
  "handleApprovedMessage msg usr s =
     (case save_message (msg\<lparr>metadata_status := ''delivered''\<rparr>) (messages s) of
        Inl e \<Rightarrow> (Inl e, s)
      | Inr ms \<Rightarrow> (Inr (), s\<lparr>messages := ms\<rparr>))"

section \<open>The pipeline (processIncomingMessage in routes/webhook.js)\<close>

text \<open>
  \<open>message_data\<close> is the object \<open>processIncomingMessage\<close> receives, with the fields it
  reads (\<open>id\<close>, \<open>from\<close>, \<open>to\<close>, \<open>type\<close>, \<open>timestamp\<close>, \<open>text\<close> and the media
  payloads); a media payload is represented by its \<open>id\<close>. The object is taken to pass
  the validators of the Message schema: the type is one of the five of its \<open>enum\<close> and
  the required fields are present. (\<open>processWebhook\<close> in services/whatsappService.js,
  which builds these objects for the route, copies no \<open>to\<close> from the payload; the model
  starts at \<open>processIncomingMessage\<close>, with the object it reads.)
\<close>

record message_data =
  md_id :: string
  md_from :: string
  md_to :: string
  md_type :: message_type
  md_timestamp :: nat
  md_text :: "js_string option"
  md_image :: "string option"
  md_video :: "string option"
  md_audio :: "string option"
  md_document :: "string option"

text \<open>Each \<open>if\<close> of \<open>extractContent\<close> overwrites \<open>mediaId\<close>, so the last payload present
  gives it; an empty text is falsy and is not copied.\<close>

definition extractContent :: "message_data \<Rightarrow> message_content" where
  "extractContent messageData =
     \<lparr>content_text =
        (case md_text messageData of
           None \<Rightarrow> None
         | Some t \<Rightarrow> if t = [] then None else Some t),
      mediaId =
        (case md_document messageData of
           Some i \<Rightarrow> Some i
         | None \<Rightarrow>
             (case md_audio messageData of
                Some i \<Rightarrow> Some i
              | None \<Rightarrow>
                  (case md_video messageData of
                     Some i \<Rightarrow> Some i
                   | None \<Rightarrow> md_image messageData)))\<rparr>"

definition new_message :: "user \<Rightarrow> message_data \<Rightarrow> state \<Rightarrow> message" where
  "new_message usr messageData s =
     \<lparr>message_id = fresh_id (map message_id (messages s)),
      userId = user_id usr,
      whatsappMessageId = md_id messageData,
      msg_from = md_from messageData,
      msg_to = md_to messageData,
      messageType = md_type messageData,
      content = extractContent messageData,
      transcription = None,
      moderation = result_of Pending,
      response = None,
      metadata_timestamp = md_timestamp messageData,
      metadata_status = ''received''\<rparr>"

text \<open>The branch on the message type: the verdict (or the exception thrown), the message
  as the branch left it, and the state.\<close>

definition moderate ::
  "world \<Rightarrow> message \<Rightarrow> user \<Rightarrow> state \<Rightarrow> (exn + moderation_result) \<times> message \<times> state" where
  "moderate w msg usr s =
     (case messageType msg of
        Text \<Rightarrow> (case processTextMessage w msg usr s of (r, s1) \<Rightarrow> (r, msg, s1))
      | Audio \<Rightarrow> (case processAudioMessage w msg usr s of (r, msg1, s1) \<Rightarrow> (Inr r, msg1, s1))
      | Image \<Rightarrow> (case processMediaMessage w msg usr s of (r, s1) \<Rightarrow> (Inr r, msg, s1))
      | Video \<Rightarrow> (case processMediaMessage w msg usr s of (r, s1) \<Rightarrow> (Inr r, msg, s1))
      | Document \<Rightarrow> (Inr (result_of Approved), msg, s))"

text \<open>\<open>User.findOne({ whatsappNumber: number })\<close>.\<close>

definition find_user :: "string \<Rightarrow> user list \<Rightarrow> user option" where
  "find_user number users = find (\<lambda>u. whatsappNumber u = number) users"

text \<open>An exception anywhere is caught and logged by \<open>processIncomingMessage\<close>; what was
  written before it stays written.\<close>

definition processIncomingMessage :: "world \<Rightarrow> user list \<Rightarrow> message_data \<Rightarrow> state \<Rightarrow> state" where
  "processIncomingMessage w users messageData s =
     (case find_user (md_to messageData) users of
        None \<Rightarrow> s
      | Some usr \<Rightarrow>
          (case moderate w (new_message usr messageData s) usr s of
             (Inl e, msg1, s1) \<Rightarrow> s1
           | (Inr moderationResult, msg1, s1) \<Rightarrow>
               (let msg2 = msg1\<lparr>moderation := moderationResult\<rparr> in
                case save_message msg2 (messages s1) of
                  Inl e \<Rightarrow> s1
                | Inr ms \<Rightarrow>
                    (let s2 = s1\<lparr>messages := ms\<rparr> in
                     if status moderationResult = Blocked
                     then snd (handleBlockedMessage w msg2 usr s2)
                     else snd (handleApprovedMessage msg2 usr s2)))))"

text \<open>The loop of the webhook route over the messages of one delivery; each message meets
  the world as it is when its turn comes.\<close>

fun process_all :: "user list \<Rightarrow> (world \<times> message_data) list \<Rightarrow> state \<Rightarrow> state" where
  "process_all users [] s = s"
| "process_all users ((w, messageData) # rest) s =
     process_all users rest (processIncomingMessage w users messageData s)"

section \<open>Reviewing a candidate word (socket/handlers.js)\<close>

text \<open>The \<open>review_word\<close> handler: look the word up by id and owner, apply the method the
  action names, save. An absent reason is the methods' default, the empty string.\<close>

text \<open>\<open>NewWord.findOne({ _id: wordId, userId: uid })\<close>.\<close>

definition find_word_by_id :: "nat \<Rightarrow> nat \<Rightarrow> new_word list \<Rightarrow> new_word option" where
  "find_word_by_id wordId uid ws = find (\<lambda>d. new_word_id d = wordId \<and> nw_userId d = uid) ws"

definition review_word ::
  "nat \<Rightarrow> nat \<Rightarrow> nat \<Rightarrow> string \<Rightarrow> string option \<Rightarrow> new_word list \<Rightarrow> new_word list" where
  "review_word t uid wordId action rsn ws =
     (case find_word_by_id wordId uid ws of
        None \<Rightarrow> ws
      | Some newWord \<Rightarrow>
          (let r = (case rsn of None \<Rightarrow> [] | Some x \<Rightarrow> x) in
           if action = ''approve'' then save_new_word (markAsHateSpeech t r newWord) ws
           else if action = ''reject'' then save_new_word (rejectWord t r newWord) ws
           else if action = ''ignore'' then save_new_word (ignoreWord t r newWord) ws
           else ws))"

section \<open>The uniqueness constraints of the Message collection\<close>

text \<open>No two stored messages share a \<open>whatsappMessageId\<close> (the unique index of the
  schema) or an \<open>_id\<close> (the primary key).\<close>

definition unique_ids :: "message list \<Rightarrow> bool" where
  "unique_ids ms = (distinct (map whatsappMessageId ms) \<and> distinct (map message_id ms))"

section \<open>Example inputs\<close>

text \<open>On a string of ASCII characters \<open>String.prototype.toLowerCase\<close> replaces the
  capital letters by the small ones and changes nothing else; the example world has this
  function, and all its texts and words are ASCII. Its regular expression test is the
  search for the pattern in the text, both in small letters, which is what a pattern of
  letters, digits and underscores means.\<close>

definition ascii_toLowerCase :: "js_string \<Rightarrow> js_string" where
  "ascii_toLowerCase s = map (\<lambda>c. if 0x41 \<le> c \<and> c \<le> 0x5A then c + 0x20 else c) s"

text \<open>A user with every filter on, one blocked and one allowed word; a world in which
  every service answers; an empty database; and a message to that user.\<close>

definition example_settings :: moderation_settings where
  "example_settings =
     \<lparr>hateSpeechEnabled = True, nudityEnabled = True, violenceEnabled = True,
      autoBlock = True, customBlockedWords = [js ''buy''],
      customAllowedWords = [js ''community'']\<rparr>"

definition example_user :: user where
  "example_user =
     \<lparr>user_id = 1, whatsappNumber = ''15550001'', moderationSettings = example_settings\<rparr>"

definition example_world :: world where
  "example_world =
     \<lparr>now = 100,
      toLowerCase = ascii_toLowerCase,
      regex_i = (\<lambda>pattern t. includes_str (ascii_toLowerCase t) (ascii_toLowerCase pattern)),
      downloadMedia = (\<lambda>i. Some ''bytes''),
      transcribeAudio = (\<lambda>b. Some \<lparr>whisper_text = js ''hello'', whisper_language = Some ''en''\<rparr>),
      toxic_bert = (\<lambda>t. Some [(''toxic'', 0.02)]),
      vision_annotate =
        (\<lambda>b. Some \<lparr>adult = VERY_UNLIKELY, ss_violence = VERY_UNLIKELY, racy = VERY_UNLIKELY\<rparr>),
      azure_submit = (\<lambda>b. Some (Some ''job'')),
      sendTextMessage = (\<lambda>dest body. Some ''wamid.reply'')\<rparr>"

text \<open>The same world with a given answer of the text classifier, with a given answer of
  the image service, without the video service, and without the transcription service.\<close>

definition scores_world :: "(string \<times> real) list \<Rightarrow> world" where
  "scores_world results = example_world\<lparr>toxic_bert := \<lambda>t. Some results\<rparr>"

definition annotation_world :: "likelihood \<Rightarrow> likelihood \<Rightarrow> likelihood \<Rightarrow> world" where
  "annotation_world a v r =
     example_world\<lparr>vision_annotate := \<lambda>b. Some \<lparr>adult = a, ss_violence = v, racy = r\<rparr>\<rparr>"

definition no_video_service_world :: world where
  "no_video_service_world = example_world\<lparr>azure_submit := \<lambda>b. None\<rparr>"

definition no_transcription_world :: world where
  "no_transcription_world = example_world\<lparr>transcribeAudio := \<lambda>b. None\<rparr>"

definition empty_state :: state where
  "empty_state = \<lparr>messages = [], newWords = [], calls = []\<rparr>"

definition example_data :: "message_type \<Rightarrow> js_string option \<Rightarrow> message_data" where
  "example_data t txt =
     \<lparr>md_id = ''wamid.1'', md_from = ''15559999'', md_to = ''15550001'', md_type = t,
      md_timestamp = 50, md_text = txt,
      md_image = (if t = Image then Some ''media.1'' else None),
      md_video = (if t = Video then Some ''media.1'' else None),
      md_audio = (if t = Audio then Some ''media.1'' else None),
      md_document = (if t = Document then Some ''media.1'' else None)\<rparr>"

definition example_message :: "message_type \<Rightarrow> js_string option \<Rightarrow> message" where
  "example_message t txt = new_message example_user (example_data t txt) empty_state"

definition example_word :: "word_status \<Rightarrow> new_word" where
  "example_word st =
     \<lparr>new_word_id = 7, nw_userId = 1, nw_word = js ''xyz'',
      originalText = js ''xyz again'',
      frequency = 3, firstDetected = 10, lastDetected = 20, nw_confidence = 0.7,
      nw_status = st,
      userDecision = \<lparr>markedAsHateSpeech = False, decisionDate = Some 30,
                      decisionReason = Some ''not offensive''\<rparr>,
      nw_updatedAt = 30\<rparr>"

text \<open>A database that already holds the example message, as a document message that was
  approved and delivered.\<close>

definition example_stored_state :: state where
  "example_stored_state =
     \<lparr>messages =
        [(new_message example_user (example_data Document None) empty_state)
           \<lparr>moderation := \<lparr>status = Approved, reason = None, hateSpeech = None,
                            contentModeration = None, res_transcription = None\<rparr>,
            metadata_status := ''delivered''\<rparr>],
      newWords = [], calls = []\<rparr>"

section \<open>Facts about the model\<close>

lemmas example_defs = example_settings_def example_user_def example_world_def empty_state_def
  example_data_def example_message_def new_message_def extractContent_def fresh_id_def
  scores_world_def annotation_world_def no_video_service_world_def no_transcription_world_def
  js_def ascii_toLowerCase_def

lemmas text_policy_defs = processTextMessage_def some_includes_def contains_term_def
  detectHateSpeech_def log_call_def result_of_def category_of_def categories_def
  object_prototype_members_def

text \<open>\<open>includes_str\<close> is the substring test.\<close>

lemma includes_str_iff: "includes_str t w \<longleftrightarrow> (\<exists>p s. t = p @ w @ s)"
proof (induction t)
  case Nil
  then show ?case by auto
next
  case (Cons c cs)
  have "(\<exists>p s. c # cs = p @ w @ s) \<longleftrightarrow> (\<exists>s. c # cs = w @ s) \<or> (\<exists>p s. cs = p @ w @ s)"
    by (auto simp: Cons_eq_append_conv)
  moreover have "(\<exists>s. c # cs = w @ s) \<longleftrightarrow> take (length w) (c # cs) = w"
    by (metis append_eq_conv_conj)
  ultimately show ?case using Cons.IH by simp
qed

text \<open>The loop of \<open>detectHateSpeech\<close> keeps "something was detected" and "the maximum
  exceeds 0.5" equivalent, and detects exactly when some score exceeds 0.5.\<close>

lemma forEach_result_invariant:
  "forEach_result results (cats, m, p) = (cats', m', p') \<Longrightarrow>
   (cats \<noteq> []) = (0.5 < m) \<Longrightarrow> (cats' \<noteq> []) = (0.5 < m')"
proof (induction results arbitrary: cats m p)
  case Nil
  then show ?case by simp
next
  case (Cons r rest)
  obtain label score where r: "r = (label, score)" by (cases r)
  show ?case
  proof (cases "0.5 < score")
    case True
    with Cons.prems r have
      "forEach_result rest
         (cats @ [\<lparr>dc_category = category_of label, dc_label = label, dc_confidence = score\<rparr>],
          if score > m then score else m,
          if score > m then Some (category_of label) else p) = (cats', m', p')"
      by simp
    moreover have "(cats @ [\<lparr>dc_category = category_of label, dc_label = label,
        dc_confidence = score\<rparr>] \<noteq> []) = (0.5 < (if score > m then score else m))"
      using True by auto
    ultimately show ?thesis by (rule Cons.IH)
  next
    case False
    with Cons.prems r have "forEach_result rest (cats, m, p) = (cats', m', p')" by simp
    then show ?thesis using Cons.prems(2) by (rule Cons.IH)
  qed
qed

lemma forEach_result_detected:
  "forEach_result results (cats, m, p) = (cats', m', p') \<Longrightarrow>
   (cats' \<noteq> []) = (cats \<noteq> [] \<or> list_ex (\<lambda>(label, score). 0.5 < score) results)"
proof (induction results arbitrary: cats m p)
  case Nil
  then show ?case by simp
next
  case (Cons r rest)
  obtain label score where r: "r = (label, score)" by (cases r)
  show ?case
  proof (cases "0.5 < score")
    case True
    with Cons.prems r have
      "forEach_result rest
         (cats @ [\<lparr>dc_category = category_of label, dc_label = label, dc_confidence = score\<rparr>],
          if score > m then score else m,
          if score > m then Some (category_of label) else p) = (cats', m', p')"
      by simp
    from Cons.IH [OF this] True r show ?thesis by simp
  next
    case False
    with Cons.prems r have "forEach_result rest (cats, m, p) = (cats', m', p')" by simp
    from Cons.IH [OF this] False r show ?thesis by simp
  qed
qed

text \<open>The maximum the loop ends with is at least the one it started with and at least
  every score above 0.5; and either nothing changed, or the maximum is a score above 0.5 of
  some label and the primary category is the category of that label.\<close>

lemma forEach_result_max:
  "forEach_result results (cats, m, p) = (cats', m', p') \<Longrightarrow>
   m \<le> m' \<and>
   (\<forall>(label, score)\<in>set results. 0.5 < score \<longrightarrow> score \<le> m') \<and>
   (m' = m \<and> p' = p \<or>
    (\<exists>label. (label, m') \<in> set results \<and> 0.5 < m' \<and> p' = Some (category_of label)))"
proof (induction results arbitrary: cats m p)
  case Nil
  then show ?case by simp
next
  case (Cons r rest)
  obtain label score where r: "r = (label, score)" by (cases r)
  show ?case
  proof (cases "0.5 < score \<and> m < score")
    case True
    with Cons.prems r have
      "forEach_result rest
         (cats @ [\<lparr>dc_category = category_of label, dc_label = label, dc_confidence = score\<rparr>],
          score, Some (category_of label)) = (cats', m', p')"
      by simp
    from Cons.IH [OF this]
    have 1: "score \<le> m'"
      and 2: "\<forall>(l, sc)\<in>set rest. 0.5 < sc \<longrightarrow> sc \<le> m'"
      and 3: "m' = score \<and> p' = Some (category_of label) \<or>
          (\<exists>l. (l, m') \<in> set rest \<and> 0.5 < m' \<and> p' = Some (category_of l))"
      by blast+
    from True 1 have "m \<le> m'" by simp
    moreover from 1 2 r have "\<forall>(l, sc)\<in>set (r # rest). 0.5 < sc \<longrightarrow> sc \<le> m'" by simp
    moreover from 3 True r
    have "\<exists>l. (l, m') \<in> set (r # rest) \<and> 0.5 < m' \<and> p' = Some (category_of l)" by auto
    ultimately show ?thesis by blast
  next
    case False
    have "forEach_result rest (if 0.5 < score
        then cats @ [\<lparr>dc_category = category_of label, dc_label = label,
                       dc_confidence = score\<rparr>] else cats, m, p) = (cats', m', p')"
      using Cons.prems r False by (auto split: if_splits)
    from Cons.IH [OF this]
    have 1: "m \<le> m'"
      and 2: "\<forall>(l, sc)\<in>set rest. 0.5 < sc \<longrightarrow> sc \<le> m'"
      and 3: "m' = m \<and> p' = p \<or>
          (\<exists>l. (l, m') \<in> set rest \<and> 0.5 < m' \<and> p' = Some (category_of l))"
      by blast+
    from False 1 have "0.5 < score \<longrightarrow> score \<le> m'" by auto
    with 2 r have "\<forall>(l, sc)\<in>set (r # rest). 0.5 < sc \<longrightarrow> sc \<le> m'" by simp
    moreover from 3
    have "m' = m \<and> p' = p \<or>
        (\<exists>l. (l, m') \<in> set (r # rest) \<and> 0.5 < m' \<and> p' = Some (category_of l))" by auto
    ultimately show ?thesis using 1 by blast
  qed
qed

lemma detectHateSpeech_detected_iff:
  assumes "detectHateSpeech w text = Some r"
  shows "hsr_detected r = (0.5 < hsr_confidence r)"
proof -
  from assms obtain results where res: "toxic_bert w text = Some results"
    by (auto simp: detectHateSpeech_def split: option.splits)
  obtain cats m p where fe: "forEach_result results ([], 0, None) = (cats, m, p)"
    by (cases "forEach_result results ([], 0, None)") auto
  from assms res fe have r: "hsr_detected r = (cats \<noteq> [])" "hsr_confidence r = m"
    by (auto simp: detectHateSpeech_def)
  have "(cats \<noteq> []) = (0.5 < m)"
    by (rule forEach_result_invariant [OF fe]) simp
  with r show ?thesis by simp
qed

text \<open>What \<open>detectHateSpeech\<close> reports, in terms of the scores the classifier returned:
  it detects exactly when some score exceeds 0.5, and then its confidence is the highest
  score and its primary category the category of a label with that score.\<close>

lemma detectHateSpeech_scores:
  assumes "toxic_bert w text = Some results"
  shows "\<exists>r. detectHateSpeech w text = Some r \<and>
             hsr_detected r = list_ex (\<lambda>(label, score). 0.5 < score) results \<and>
             (hsr_detected r \<longrightarrow>
                hsr_confidence r = Max (snd ` set results) \<and>
                (\<exists>label. (label, Max (snd ` set results)) \<in> set results \<and>
                         hsr_primaryCategory r = Some (category_of label)))"
proof -
  obtain cats m p where fe: "forEach_result results ([], 0, None) = (cats, m, p)"
    by (cases "forEach_result results ([], 0, None)") auto
  let ?r = "\<lparr>hsr_detected = (length cats > 0), hsr_confidence = m,
             hsr_primaryCategory = p, hsr_categories = cats\<rparr>"
  from assms fe have r: "detectHateSpeech w text = Some ?r"
    by (simp add: detectHateSpeech_def)
  from forEach_result_detected [OF fe]
  have det: "(cats \<noteq> []) = list_ex (\<lambda>(label, score). 0.5 < score) results" by simp
  have inv: "(cats \<noteq> []) = (0.5 < m)"
    by (rule forEach_result_invariant [OF fe]) simp
  have "m = Max (snd ` set results) \<and>
        (\<exists>label. (label, Max (snd ` set results)) \<in> set results \<and> p = Some (category_of label))"
    if "cats \<noteq> []"
  proof -
    from that inv have m: "0.5 < m" by simp
    from forEach_result_max [OF fe]
    have ub: "\<forall>(label, score)\<in>set results. 0.5 < score \<longrightarrow> score \<le> m"
      and wit: "m = 0 \<and> p = None \<or>
          (\<exists>label. (label, m) \<in> set results \<and> 0.5 < m \<and> p = Some (category_of label))"
      by blast+
    from wit m obtain label where l: "(label, m) \<in> set results" "p = Some (category_of label)"
      by auto
    have "y \<le> m" if "y \<in> snd ` set results" for y
    proof (cases "0.5 < y")
      case True
      with that ub show ?thesis by auto
    next
      case False
      with m show ?thesis by simp
    qed
    moreover from l(1) have "m \<in> snd ` set results" by force
    ultimately have "Max (snd ` set results) = m" by (intro Max_eqI) simp_all
    with l show ?thesis by auto
  qed
  with r det show ?thesis by (intro exI [of _ ?r]) simp
qed

section \<open>The text policy: custom words\<close>

text \<open>
  Claim C1, as stated: a text that contains an allowed word is approved whatever the block
  list contains. It fails: the block list is tested first. The text "Buy the community"
  contains the allowed word "community" and the blocked word "buy", and is blocked.
\<close>

theorem allowed_word_with_blocked_word_counterexample:
  "contains_term example_world (js ''Buy the community'')
     (customAllowedWords (moderationSettings example_user)) \<and>
   processTextMessage example_world (example_message Text (Some (js ''Buy the community'')))
       example_user empty_state =
     (Inr \<lparr>status = Blocked, reason = Some ''custom_word'',
           hateSpeech = Some \<lparr>hs_detected = True, hs_confidence = 1,
                               hs_category = Some (Category ''custom'')\<rparr>,
           contentModeration = None, res_transcription = None\<rparr>, empty_state)"
  by (simp add: example_defs text_policy_defs)

text \<open>
  Claim C1, amended: a text that contains an allowed word is approved, whatever the
  classifier would answer, unless it also contains a blocked word; then it is blocked with
  reason \<open>custom_word\<close>. In both cases the state is unchanged, so the classifier is not
  even called. The two tests are those of the code, with the platform's \<open>toLowerCase\<close>.
\<close>

theorem allowed_word_approves:
  assumes "content_text (content msg) = Some t"
    and "contains_term w t (customAllowedWords (moderationSettings usr))"
  shows "processTextMessage w msg usr s =
           (Inr (if contains_term w t (customBlockedWords (moderationSettings usr))
                 then \<lparr>status = Blocked, reason = Some ''custom_word'',
                       hateSpeech = Some \<lparr>hs_detected = True, hs_confidence = 1,
                                           hs_category = Some (Category ''custom'')\<rparr>,
                       contentModeration = None, res_transcription = None\<rparr>
                 else \<lparr>status = Approved, reason = None, hateSpeech = None,
                       contentModeration = None, res_transcription = None\<rparr>), s)"
  using assms by (simp add: processTextMessage_def some_includes_def result_of_def)

theorem allowed_word_approves_witness:
  "processTextMessage (scores_world [(''toxic'', 1)])
       (example_message Text (Some (js ''I love this community''))) example_user empty_state =
     (Inr \<lparr>status = Approved, reason = None, hateSpeech = None,
           contentModeration = None, res_transcription = None\<rparr>, empty_state) \<and>
   processTextMessage (scores_world [(''toxic'', 1)])
       (example_message Text (Some (js ''Buy the community''))) example_user empty_state =
     (Inr \<lparr>status = Blocked, reason = Some ''custom_word'',
           hateSpeech = Some \<lparr>hs_detected = True, hs_confidence = 1,
                               hs_category = Some (Category ''custom'')\<rparr>,
           contentModeration = None, res_transcription = None\<rparr>, empty_state)"
proof -
  let ?w = "scores_world [(''toxic'', 1)]"
  have a1: "content_text (content (example_message Text (Some (js ''I love this community'')))) =
          Some (js ''I love this community'')"
    by (simp add: example_defs)
  have a2: "contains_term ?w (js ''I love this community'')
          (customAllowedWords (moderationSettings example_user))"
    by (simp add: example_defs text_policy_defs)
  have a3: "\<not> contains_term ?w (js ''I love this community'')
          (customBlockedWords (moderationSettings example_user))"
    by (simp add: example_defs text_policy_defs)
  have b1: "content_text (content (example_message Text (Some (js ''Buy the community'')))) =
          Some (js ''Buy the community'')"
    by (simp add: example_defs)
  have b2: "contains_term ?w (js ''Buy the community'')
          (customAllowedWords (moderationSettings example_user))"
    by (simp add: example_defs text_policy_defs)
  have b3: "contains_term ?w (js ''Buy the community'')
          (customBlockedWords (moderationSettings example_user))"
    by (simp add: example_defs text_policy_defs)
  from allowed_word_approves [OF a1 a2, of empty_state] a3
    allowed_word_approves [OF b1 b2, of empty_state] b3
  show ?thesis by simp
qed

text \<open>
  Claim C2, as stated: a text with a blocked word and no allowed word is blocked with reason
  \<open>custom_blocked_word\<close>. The verdict is blocked and the confidence is 1, but the reason the
  code records is \<open>custom_word\<close>.
\<close>

theorem blocked_word_reason_counterexample:
  "contains_term example_world (js ''buy now!!!'')
     (customBlockedWords (moderationSettings example_user)) \<and>
   \<not> contains_term example_world (js ''buy now!!!'')
     (customAllowedWords (moderationSettings example_user)) \<and>
   reason (projr (fst (processTextMessage example_world
       (example_message Text (Some (js ''buy now!!!''))) example_user empty_state))) =
     Some ''custom_word'' \<and>
   reason (projr (fst (processTextMessage example_world
       (example_message Text (Some (js ''buy now!!!''))) example_user empty_state))) \<noteq>
     Some ''custom_blocked_word''"
  by (simp add: example_defs text_policy_defs)

text \<open>
  Claim C2, amended: a text with a blocked word and no allowed word is blocked with reason
  \<open>custom_word\<close>, and the recorded confidence is exactly 1. The two tests are those of the
  code, with the platform's \<open>toLowerCase\<close>.
\<close>

theorem blocked_word_blocks:
  assumes "content_text (content msg) = Some t"
    and "contains_term w t (customBlockedWords (moderationSettings usr))"
    and "\<not> contains_term w t (customAllowedWords (moderationSettings usr))"
  shows "processTextMessage w msg usr s =
           (Inr \<lparr>status = Blocked, reason = Some ''custom_word'',
                 hateSpeech = Some \<lparr>hs_detected = True, hs_confidence = 1,
                                     hs_category = Some (Category ''custom'')\<rparr>,
                 contentModeration = None, res_transcription = None\<rparr>, s)"
  using assms by (simp add: processTextMessage_def some_includes_def result_of_def)

theorem blocked_word_blocks_witness:
  "processTextMessage example_world (example_message Text (Some (js ''buy now!!!'')))
       example_user empty_state =
     (Inr \<lparr>status = Blocked, reason = Some ''custom_word'',
           hateSpeech = Some \<lparr>hs_detected = True, hs_confidence = 1,
                               hs_category = Some (Category ''custom'')\<rparr>,
           contentModeration = None, res_transcription = None\<rparr>, empty_state)"
proof (rule blocked_word_blocks)
  show "content_text (content (example_message Text (Some (js ''buy now!!!'')))) =
          Some (js ''buy now!!!'')"
    by (simp add: example_defs)
  show "contains_term example_world (js ''buy now!!!'')
          (customBlockedWords (moderationSettings example_user))"
    by (simp add: example_defs text_policy_defs)
  show "\<not> contains_term example_world (js ''buy now!!!'')
          (customAllowedWords (moderationSettings example_user))"
    by (simp add: example_defs text_policy_defs)
qed

section \<open>The text policy: the classifier\<close>

text \<open>
  Claim C3, as stated: without a custom word and with the hate speech filter on, the text is
  blocked exactly when the confidence exceeds 0.7. It fails: a single label with score 0.6
  gives confidence 0.6, not above 0.7, and the text is blocked with reason \<open>hate_speech\<close>.
\<close>

theorem hate_speech_threshold_counterexample:
  "\<not> contains_term (scores_world [(''toxic'', 0.6)]) (js ''hello there'')
       (customBlockedWords (moderationSettings example_user)) \<and>
   \<not> contains_term (scores_world [(''toxic'', 0.6)]) (js ''hello there'')
       (customAllowedWords (moderationSettings example_user)) \<and>
   hateSpeechEnabled (moderationSettings example_user) \<and>
   \<not> (0.7 :: real) < 0.6 \<and>
   fst (processTextMessage (scores_world [(''toxic'', 0.6)])
       (example_message Text (Some (js ''hello there''))) example_user empty_state) =
     Inr \<lparr>status = Blocked, reason = Some ''hate_speech'',
          hateSpeech = Some \<lparr>hs_detected = True, hs_confidence = 0.6,
                              hs_category = Some (Category ''hate_speech'')\<rparr>,
          contentModeration = None, res_transcription = None\<rparr>"
  by (simp add: example_defs text_policy_defs)

text \<open>
  Claim C3, amended: without a custom word (by the tests of the code), with the hate speech
  filter on and an answer from the classifier, the text is blocked with reason
  \<open>hate_speech\<close> exactly when some label the classifier returned has a score above 0.5;
  the recorded confidence is then the highest score returned, and the recorded category
  that of a label with that score. Otherwise the verdict is approved. No second threshold
  exists.
\<close>

theorem hate_speech_blocks_iff:
  assumes "content_text (content msg) = Some t"
    and "\<not> contains_term w t (customBlockedWords (moderationSettings usr))"
    and "\<not> contains_term w t (customAllowedWords (moderationSettings usr))"
    and "hateSpeechEnabled (moderationSettings usr)"
    and "toxic_bert w (Some t) = Some results"
  shows "if list_ex (\<lambda>(label, score). 0.5 < score) results
         then \<exists>label. (label, Max (snd ` set results)) \<in> set results \<and>
                fst (processTextMessage w msg usr s) =
                  Inr \<lparr>status = Blocked, reason = Some ''hate_speech'',
                       hateSpeech = Some \<lparr>hs_detected = True,
                                           hs_confidence = Max (snd ` set results),
                                           hs_category = Some (category_of label)\<rparr>,
                       contentModeration = None, res_transcription = None\<rparr>
         else fst (processTextMessage w msg usr s) =
                Inr \<lparr>status = Approved, reason = None, hateSpeech = None,
                     contentModeration = None, res_transcription = None\<rparr>"
proof -
  from detectHateSpeech_scores [OF assms(5)] obtain r
    where r: "detectHateSpeech w (Some t) = Some r"
      and det: "hsr_detected r = list_ex (\<lambda>(label, score). 0.5 < score) results"
      and mx: "hsr_detected r \<longrightarrow>
                hsr_confidence r = Max (snd ` set results) \<and>
                (\<exists>label. (label, Max (snd ` set results)) \<in> set results \<and>
                         hsr_primaryCategory r = Some (category_of label))"
    by blast
  show ?thesis
  proof (cases "hsr_detected r")
    case True
    with mx obtain label where l: "(label, Max (snd ` set results)) \<in> set results"
      "hsr_primaryCategory r = Some (category_of label)"
      "hsr_confidence r = Max (snd ` set results)"
      by blast
    from assms(1-4) r True l(2,3)
    have "fst (processTextMessage w msg usr s) =
        Inr \<lparr>status = Blocked, reason = Some ''hate_speech'',
             hateSpeech = Some \<lparr>hs_detected = True,
                                 hs_confidence = Max (snd ` set results),
                                 hs_category = Some (category_of label)\<rparr>,
             contentModeration = None, res_transcription = None\<rparr>"
      by (simp add: processTextMessage_def some_includes_def result_of_def Let_def)
    with l(1) True det show ?thesis by auto
  next
    case False
    with assms(1-4) r
    have "fst (processTextMessage w msg usr s) =
        Inr \<lparr>status = Approved, reason = None, hateSpeech = None,
             contentModeration = None, res_transcription = None\<rparr>"
      by (simp add: processTextMessage_def some_includes_def result_of_def Let_def
          checkForNewWords_def)
    with False det show ?thesis by simp
  qed
qed

theorem hate_speech_blocks_iff_witness:
  "fst (processTextMessage (scores_world [(''insult'', 0.3), (''toxic'', 0.6)])
       (example_message Text (Some (js ''hello there''))) example_user empty_state) =
     Inr \<lparr>status = Blocked, reason = Some ''hate_speech'',
          hateSpeech = Some \<lparr>hs_detected = True, hs_confidence = 0.6,
                              hs_category = Some (Category ''hate_speech'')\<rparr>,
          contentModeration = None, res_transcription = None\<rparr> \<and>
   fst (processTextMessage (scores_world [(''toxic'', 0.5)])
       (example_message Text (Some (js ''hello there''))) example_user empty_state) =
     Inr \<lparr>status = Approved, reason = None, hateSpeech = None,
          contentModeration = None, res_transcription = None\<rparr>"
proof -
  let ?w = "scores_world [(''insult'', 0.3), (''toxic'', 0.6)]"
  let ?v = "scores_world [(''toxic'', 0.5)]"
  let ?msg = "example_message Text (Some (js ''hello there''))"
  have 1: "content_text (content ?msg) = Some (js ''hello there'')"
    by (simp add: example_defs)
  have 2: "\<not> contains_term ?w (js ''hello there'')
      (customBlockedWords (moderationSettings example_user))"
    "\<not> contains_term ?v (js ''hello there'')
      (customBlockedWords (moderationSettings example_user))"
    by (simp_all add: example_defs text_policy_defs)
  have 3: "\<not> contains_term ?w (js ''hello there'')
      (customAllowedWords (moderationSettings example_user))"
    "\<not> contains_term ?v (js ''hello there'')
      (customAllowedWords (moderationSettings example_user))"
    by (simp_all add: example_defs text_policy_defs)
  have 4: "hateSpeechEnabled (moderationSettings example_user)"
    by (simp add: example_defs)
  have 5: "toxic_bert ?w (Some (js ''hello there'')) = Some [(''insult'', 0.3), (''toxic'', 0.6)]"
    "toxic_bert ?v (Some (js ''hello there'')) = Some [(''toxic'', 0.5)]"
    by (simp_all add: example_defs)
  have mx: "Max (snd ` set [(''insult'', 0.3 :: real), (''toxic'', 0.6)]) = 0.6"
    by simp
  from hate_speech_blocks_iff [OF 1 2(1) 3(1) 4 5(1), of empty_state]
  have "fst (processTextMessage ?w ?msg example_user empty_state) =
     Inr \<lparr>status = Blocked, reason = Some ''hate_speech'',
          hateSpeech = Some \<lparr>hs_detected = True, hs_confidence = 0.6,
                              hs_category = Some (Category ''hate_speech'')\<rparr>,
          contentModeration = None, res_transcription = None\<rparr>"
    unfolding mx by (auto simp: category_of_def categories_def)
  moreover from hate_speech_blocks_iff [OF 1 2(2) 3(2) 4 5(2), of empty_state]
  have "fst (processTextMessage ?v ?msg example_user empty_state) =
     Inr \<lparr>status = Approved, reason = None, hateSpeech = None,
          contentModeration = None, res_transcription = None\<rparr>"
    by simp
  ultimately show ?thesis by simp
qed

section \<open>The media policy\<close>

lemmas media_policy_defs = processMediaMessage_def moderateMedia_def moderateMedia_calls_def
  moderateImage_def moderateVideo_def pollVideoResults_def annotation_result_def
  getConfidenceScore_def media_decision_def log_call_def result_of_def

lemma annotation_result_detected:
  "detected (annotation_result level name) = (0.7 \<le> confidence (annotation_result level name))"
  by (cases level) (simp_all add: annotation_result_def getConfidenceScore_def)

lemma pollVideoResults_detected:
  "detected (nudity (pollVideoResults j)) = (0.7 \<le> confidence (nudity (pollVideoResults j)))"
  "detected (violence (pollVideoResults j)) = (0.7 \<le> confidence (violence (pollVideoResults j)))"
  "detected (explicit (pollVideoResults j)) = (0.7 \<le> confidence (explicit (pollVideoResults j)))"
  by (simp_all add: pollVideoResults_def)

lemma moderateImage_detected:
  assumes "moderateImage w buf = Some cm"
  shows "detected (nudity cm) = (0.7 \<le> confidence (nudity cm)) \<and>
         detected (violence cm) = (0.7 \<le> confidence (violence cm)) \<and>
         detected (explicit cm) = (0.7 \<le> confidence (explicit cm))"
proof (cases "vision_annotate w buf")
  case None
  with assms show ?thesis by (simp add: moderateImage_def)
next
  case (Some ss)
  with assms have "cm = \<lparr>nudity = annotation_result (adult ss) ''adult'',
        violence = annotation_result (ss_violence ss) ''violence'',
        explicit = annotation_result (racy ss) ''racy''\<rparr>"
    by (simp add: moderateImage_def)
  then show ?thesis by (simp only: annotation_result_detected content_moderation.simps)
qed

lemma moderateVideo_detected:
  assumes "moderateVideo w buf = Some cm"
  shows "detected (nudity cm) = (0.7 \<le> confidence (nudity cm)) \<and>
         detected (violence cm) = (0.7 \<le> confidence (violence cm)) \<and>
         detected (explicit cm) = (0.7 \<le> confidence (explicit cm))"
proof (cases "azure_submit w buf")
  case None
  with assms show ?thesis by (simp add: moderateVideo_def)
next
  case (Some j)
  with assms have "cm = pollVideoResults j" by (simp add: moderateVideo_def)
  then show ?thesis by (simp only: pollVideoResults_detected)
qed

lemma moderateMedia_detected_iff:
  assumes "moderateMedia w buf t = Some cm"
  shows "detected (nudity cm) = (0.7 \<le> confidence (nudity cm))"
    and "detected (violence cm) = (0.7 \<le> confidence (violence cm))"
    and "detected (explicit cm) = (0.7 \<le> confidence (explicit cm))"
proof -
  have "detected (nudity cm) = (0.7 \<le> confidence (nudity cm)) \<and>
        detected (violence cm) = (0.7 \<le> confidence (violence cm)) \<and>
        detected (explicit cm) = (0.7 \<le> confidence (explicit cm))"
  proof (cases t)
    case Image
    with assms have "moderateImage w buf = Some cm" by (simp add: moderateMedia_def)
    then show ?thesis by (rule moderateImage_detected)
  next
    case Video
    with assms have "moderateVideo w buf = Some cm" by (simp add: moderateMedia_def)
    then show ?thesis by (rule moderateVideo_detected)
  qed (use assms in \<open>simp_all add: moderateMedia_def\<close>)
  then show "detected (nudity cm) = (0.7 \<le> confidence (nudity cm))"
    and "detected (violence cm) = (0.7 \<le> confidence (violence cm))"
    and "detected (explicit cm) = (0.7 \<le> confidence (explicit cm))"
    by blast+
qed

lemma processMediaMessage_decision:
  assumes "downloadMedia w (mediaId (content msg)) = Some buf"
    and "moderateMedia w buf (messageType msg) = Some cm"
  shows "fst (processMediaMessage w msg usr s) =
           (if fst (media_decision cm (moderationSettings usr))
            then (result_of Blocked)\<lparr>reason := Some (snd (media_decision cm (moderationSettings usr))),
                                      contentModeration := Some cm\<rparr>
            else (result_of Approved)\<lparr>contentModeration := Some cm\<rparr>)"
  using assms by (simp add: processMediaMessage_def Let_def split: prod.splits)

text \<open>
  Claim C4, as stated: when several categories qualify, the reason is that of the first in
  the order nudity, violence, explicit. It fails: each check overwrites the reason of the
  one before. An image that is very likely both adult and violent (confidence 0.9 each, both
  filters on) is blocked with reason \<open>violence\<close>.
\<close>

theorem media_first_category_counterexample:
  "nudityEnabled (moderationSettings example_user) \<and>
   violenceEnabled (moderationSettings example_user) \<and>
   fst (processMediaMessage
         (annotation_world VERY_LIKELY VERY_LIKELY VERY_UNLIKELY)
         (example_message Image None) example_user empty_state) =
     \<lparr>status = Blocked, reason = Some ''violence'', hateSpeech = None,
      contentModeration = Some
        \<lparr>nudity = \<lparr>detected = True, confidence = 0.9, category = Some ''adult''\<rparr>,
         violence = \<lparr>detected = True, confidence = 0.9, category = Some ''violence''\<rparr>,
         explicit = \<lparr>detected = False, confidence = 0.1, category = Some ''racy''\<rparr>\<rparr>,
      res_transcription = None\<rparr>"
  by (simp add: example_defs media_policy_defs)

text \<open>
  Claim C4, amended: when the media classification succeeds, the recorded reason is that of
  the last qualifying category in the order nudity, violence, explicit: \<open>explicit_content\<close>
  if explicit content is detected, else \<open>violence\<close> if violence is detected and its filter
  is on, else \<open>nudity\<close> if nudity is detected and its filter is on.
\<close>

theorem media_reason_last_qualifying:
  assumes "downloadMedia w (mediaId (content msg)) = Some buf"
    and "moderateMedia w buf (messageType msg) = Some cm"
  shows "reason (fst (processMediaMessage w msg usr s)) =
           (if detected (explicit cm) then Some ''explicit_content''
            else if detected (violence cm) \<and> violenceEnabled (moderationSettings usr)
            then Some ''violence''
            else if detected (nudity cm) \<and> nudityEnabled (moderationSettings usr)
            then Some ''nudity''
            else None)"
  unfolding processMediaMessage_decision [OF assms]
  by (auto simp add: media_decision_def result_of_def)

theorem media_reason_last_qualifying_witness:
  "reason (fst (processMediaMessage
         (annotation_world LIKELY VERY_LIKELY LIKELY)
         (example_message Image None) example_user empty_state)) =
     Some ''explicit_content''"
proof -
  let ?w = "annotation_world LIKELY VERY_LIKELY LIKELY"
  let ?cm = "\<lparr>nudity = \<lparr>detected = True, confidence = 0.7, category = Some ''adult''\<rparr>,
         violence = \<lparr>detected = True, confidence = 0.9, category = Some ''violence''\<rparr>,
         explicit = \<lparr>detected = True, confidence = 0.7, category = Some ''racy''\<rparr>\<rparr>"
  have 1: "downloadMedia ?w (mediaId (content (example_message Image None))) = Some ''bytes''"
    by (simp add: example_defs)
  have 2: "moderateMedia ?w ''bytes'' (messageType (example_message Image None)) = Some ?cm"
    by (simp add: example_defs media_policy_defs)
  from media_reason_last_qualifying [OF 1 2, of example_user empty_state] show ?thesis by simp
qed

text \<open>
  Claim C5, as stated: a category blocks only when its confidence exceeds 0.8. It fails: the
  pipeline blocks on the adapter's \<open>detected\<close> flag. An image whose adult likelihood is
  LIKELY has confidences 0.7, 0.1 and 0.1, none above 0.8, and is blocked for nudity.
\<close>

theorem media_threshold_counterexample:
  "\<not> (0.8 :: real) < 0.7 \<and> \<not> (0.8 :: real) < 0.1 \<and>
   fst (processMediaMessage
         (annotation_world LIKELY VERY_UNLIKELY VERY_UNLIKELY)
         (example_message Image None) example_user empty_state) =
     \<lparr>status = Blocked, reason = Some ''nudity'', hateSpeech = None,
      contentModeration = Some
        \<lparr>nudity = \<lparr>detected = True, confidence = 0.7, category = Some ''adult''\<rparr>,
         violence = \<lparr>detected = False, confidence = 0.1, category = Some ''violence''\<rparr>,
         explicit = \<lparr>detected = False, confidence = 0.1, category = Some ''racy''\<rparr>\<rparr>,
      res_transcription = None\<rparr>"
  by (simp add: example_defs media_policy_defs)

text \<open>
  Claim C5, amended: when the media classification succeeds, the verdict is blocked exactly
  when some category has confidence at least 0.7 (the adapter reports it detected) and, for
  nudity and violence, its filter is on; otherwise the verdict is approved. So a confidence
  of 0.7 does block, and if no confidence reaches 0.7 the verdict is approved.
\<close>

theorem media_blocked_iff:
  assumes "downloadMedia w (mediaId (content msg)) = Some buf"
    and "moderateMedia w buf (messageType msg) = Some cm"
  shows "status (fst (processMediaMessage w msg usr s)) =
           (if 0.7 \<le> confidence (nudity cm) \<and> nudityEnabled (moderationSettings usr) \<or>
               0.7 \<le> confidence (violence cm) \<and> violenceEnabled (moderationSettings usr) \<or>
               0.7 \<le> confidence (explicit cm)
            then Blocked else Approved)"
  unfolding processMediaMessage_decision [OF assms]
    moderateMedia_detected_iff [OF assms(2), symmetric]
  by (auto simp add: media_decision_def result_of_def)

theorem media_blocked_iff_witness:
  "status (fst (processMediaMessage
         (annotation_world POSSIBLE UNLIKELY VERY_UNLIKELY)
         (example_message Image None) example_user empty_state)) = Approved"
proof -
  let ?w = "annotation_world POSSIBLE UNLIKELY VERY_UNLIKELY"
  let ?cm = "\<lparr>nudity = \<lparr>detected = False, confidence = 0.5, category = Some ''adult''\<rparr>,
         violence = \<lparr>detected = False, confidence = 0.3, category = Some ''violence''\<rparr>,
         explicit = \<lparr>detected = False, confidence = 0.1, category = Some ''racy''\<rparr>\<rparr>"
  have 1: "downloadMedia ?w (mediaId (content (example_message Image None))) = Some ''bytes''"
    by (simp add: example_defs)
  have 2: "moderateMedia ?w ''bytes'' (messageType (example_message Image None)) = Some ?cm"
    by (simp add: example_defs media_policy_defs)
  from media_blocked_iff [OF 1 2, of example_user empty_state] show ?thesis by simp
qed

text \<open>
  Claim C10, as stated: a video whose download succeeds is approved. It fails when the
  request that submits the video to the moderation service fails: the verdict is then
  \<open>error\<close>.
\<close>

theorem video_submit_failure_counterexample:
  "downloadMedia no_video_service_world
       (mediaId (content (example_message Video None))) = Some ''bytes'' \<and>
   fst (processMediaMessage no_video_service_world
         (example_message Video None) example_user empty_state) =
     \<lparr>status = Error, reason = Some ''media_moderation_failed'', hateSpeech = None,
      contentModeration = None, res_transcription = None\<rparr>"
  by (simp add: example_defs media_policy_defs)

text \<open>
  Claim C10, amended: a video whose download succeeds is approved when the request that
  submits it to the moderation service succeeds, with the fixed all-clear result (nothing
  detected, confidence 0.1 in each category), and gets the verdict \<open>error\<close> when that
  request fails; it is never blocked.
\<close>

theorem video_approved_or_error:
  assumes "messageType msg = Video"
    and "downloadMedia w (mediaId (content msg)) = Some buf"
  shows "fst (processMediaMessage w msg usr s) =
           (case azure_submit w buf of
              None \<Rightarrow>
                \<lparr>status = Error, reason = Some ''media_moderation_failed'', hateSpeech = None,
                 contentModeration = None, res_transcription = None\<rparr>
            | Some jobId \<Rightarrow>
                \<lparr>status = Approved, reason = None, hateSpeech = None,
                 contentModeration = Some
                  \<lparr>nudity = \<lparr>detected = False, confidence = 0.1, category = None\<rparr>,
                   violence = \<lparr>detected = False, confidence = 0.1, category = None\<rparr>,
                   explicit = \<lparr>detected = False, confidence = 0.1, category = None\<rparr>\<rparr>,
                 res_transcription = None\<rparr>)"
  using assms
  by (simp add: processMediaMessage_def moderateMedia_def moderateVideo_def media_decision_def
      pollVideoResults_def result_of_def Let_def split: option.splits)

theorem video_approved_or_error_witness:
  "fst (processMediaMessage example_world (example_message Video None) example_user
         empty_state) =
     \<lparr>status = Approved, reason = None, hateSpeech = None,
      contentModeration = Some
        \<lparr>nudity = \<lparr>detected = False, confidence = 0.1, category = None\<rparr>,
         violence = \<lparr>detected = False, confidence = 0.1, category = None\<rparr>,
         explicit = \<lparr>detected = False, confidence = 0.1, category = None\<rparr>\<rparr>,
      res_transcription = None\<rparr>"
proof -
  have 1: "messageType (example_message Video None) = Video"
    by (simp add: example_defs)
  have 2: "downloadMedia example_world (mediaId (content (example_message Video None))) =
             Some ''bytes''"
    by (simp add: example_defs)
  have 3: "azure_submit example_world ''bytes'' = Some (Some ''job'')"
    by (simp add: example_defs)
  from video_approved_or_error [OF 1 2, of example_user empty_state] 3 show ?thesis
    by (simp add: result_of_def)
qed

section \<open>The thresholds of the model's own method\<close>

text \<open>The verdicts of the pipeline above that contradict claims C3, C4 and C5 are verdicts
  that \<open>shouldBlock\<close> would not give: the thresholds 0.7 and 0.8 and the first-match order
  are those of that method, which the pipeline does not use.\<close>

lemma shouldBlock_differs_on_text:
  "shouldBlock (projr (fst (processTextMessage (scores_world [(''toxic'', 0.6)])
       (example_message Text (Some (js ''hello there''))) example_user empty_state))) =
     (False, None)"
  by (simp add: example_defs text_policy_defs shouldBlock_def)

lemma shouldBlock_differs_on_likely_image:
  "shouldBlock (fst (processMediaMessage (annotation_world LIKELY VERY_UNLIKELY VERY_UNLIKELY)
       (example_message Image None) example_user empty_state)) =
     (False, None)"
  by (simp add: example_defs media_policy_defs shouldBlock_def)

lemma shouldBlock_differs_on_reason:
  "shouldBlock (fst (processMediaMessage (annotation_world VERY_LIKELY VERY_LIKELY VERY_UNLIKELY)
       (example_message Image None) example_user empty_state)) =
     (True, Some ''nudity'')"
  by (simp add: example_defs media_policy_defs shouldBlock_def)

section \<open>The Message collection keeps its identifiers unique\<close>

lemma fold_max_ge: "a \<le> fold max ids (a::nat)"
proof (induction ids arbitrary: a)
  case Nil
  show ?case by simp
next
  case (Cons x xs)
  have "a \<le> max x a" by simp
  also have "max x a \<le> fold max xs (max x a)" by (rule Cons.IH)
  finally show ?case by simp
qed

lemma fold_max_mem: "x \<in> set ids \<Longrightarrow> x \<le> fold max ids (a::nat)"
proof (induction ids arbitrary: a)
  case Nil
  then show ?case by simp
next
  case (Cons y ys)
  show ?case
  proof (cases "x = y")
    case True
    have "x \<le> max y a" using True by simp
    also have "max y a \<le> fold max ys (max y a)" by (rule fold_max_ge)
    finally show ?thesis by simp
  next
    case False
    with Cons.prems have "x \<in> set ys" by simp
    then show ?thesis using Cons.IH by simp
  qed
qed

lemma fresh_id_notin: "fresh_id ids \<notin> set ids"
proof
  assume "fresh_id ids \<in> set ids"
  then have "fresh_id ids \<le> fold max ids 0" by (rule fold_max_mem)
  then show False by (simp add: fresh_id_def)
qed

lemma notin_image_conv: "(x \<notin> f ` set ms) = (\<forall>d\<in>set ms. f d \<noteq> x)"
  by (simp add: image_iff eq_commute)

lemma save_message_new:
  assumes "valid_message m"
    and "message_id m \<notin> message_id ` set ms"
    and "whatsappMessageId m \<notin> whatsappMessageId ` set ms"
  shows "save_message m ms = Inr (ms @ [m])"
  using assms by (simp add: save_message_def list_ex_iff notin_image_conv)

lemma save_message_duplicate:
  assumes "message_id m \<notin> message_id ` set ms"
    and "whatsappMessageId m \<in> whatsappMessageId ` set ms"
  shows "\<exists>e. save_message m ms = Inl e"
proof -
  from assms(2) obtain d where d: "d \<in> set ms" "whatsappMessageId d = whatsappMessageId m"
    by (auto simp: image_iff)
  from assms(1) d(1) have "message_id d \<noteq> message_id m"
    by (simp add: notin_image_conv)
  with d have "list_ex (\<lambda>d. message_id d \<noteq> message_id m \<and>
      whatsappMessageId d = whatsappMessageId m) ms"
    by (auto simp: list_ex_iff)
  then show ?thesis by (simp add: save_message_def)
qed

lemma save_message_update_last:
  assumes "valid_message m'"
    and "message_id m \<notin> message_id ` set ms"
    and "whatsappMessageId m \<notin> whatsappMessageId ` set ms"
    and "message_id m' = message_id m"
    and "whatsappMessageId m' = whatsappMessageId m"
  shows "save_message m' (ms @ [m]) = Inr (ms @ [m'])"
proof -
  from assms(2) have ids: "\<forall>d\<in>set ms. message_id d \<noteq> message_id m"
    by (simp add: notin_image_conv)
  from assms(3) have wids: "\<forall>d\<in>set ms. whatsappMessageId d \<noteq> whatsappMessageId m"
    by (simp add: notin_image_conv)
  from ids have "map (\<lambda>d. if message_id d = message_id m then m' else d) ms = ms"
    by (induction ms) auto
  with ids wids assms(1,4,5) show ?thesis by (simp add: save_message_def list_ex_iff)
qed

lemma distinct_map_replace:
  assumes "distinct (map f ms)" and "distinct (map g ms)"
    and "\<forall>d\<in>set ms. g d \<noteq> g m \<longrightarrow> f d \<noteq> f m"
  shows "distinct (map f (map (\<lambda>d. if g d = g m then m else d) ms))"
  using assms
proof (induction ms)
  case Nil
  then show ?case by simp
next
  case (Cons d ds)
  then have ih: "distinct (map f (map (\<lambda>d. if g d = g m then m else d) ds))" by simp
  from Cons.prems(1) have fd: "\<forall>e\<in>set ds. f e \<noteq> f d"
    by (simp add: notin_image_conv)
  show ?case
  proof (cases "g d = g m")
    case True
    from Cons.prems(2) have "\<forall>e\<in>set ds. g e \<noteq> g d"
      by (simp add: notin_image_conv)
    with True have ge: "\<forall>e\<in>set ds. g e \<noteq> g m" by simp
    with Cons.prems(3) have fe: "\<forall>e\<in>set ds. f e \<noteq> f m" by simp
    from ge have "map (\<lambda>d. if g d = g m then m else d) ds = ds"
      by (induction ds) auto
    with True fe Cons.prems(1) show ?thesis by (simp add: notin_image_conv)
  next
    case False
    with Cons.prems(3) have "f d \<noteq> f m" by simp
    with fd have "\<forall>e\<in>set ds. f (if g e = g m then m else e) \<noteq> f d" by auto
    with False ih show ?thesis by (simp add: notin_image_conv)
  qed
qed

lemma save_message_unique_ids:
  assumes "unique_ids ms" and "save_message m ms = Inr ms'"
  shows "unique_ids ms'"
proof -
  from assms(2) have nodup: "\<forall>d\<in>set ms. message_id d \<noteq> message_id m \<longrightarrow>
      whatsappMessageId d \<noteq> whatsappMessageId m"
    by (auto simp: save_message_def list_ex_iff split: if_splits)
  show ?thesis
  proof (cases "message_id m \<in> set (map message_id ms)")
    case True
    with assms(2) nodup have ms': "ms' = map (\<lambda>d. if message_id d = message_id m then m else d) ms"
      by (auto simp: save_message_def list_ex_iff split: if_splits)
    have "map message_id ms' = map message_id ms"
      unfolding ms' by (induction ms) auto
    moreover have "distinct (map whatsappMessageId ms')"
      unfolding ms' using assms(1) nodup
      by (intro distinct_map_replace) (auto simp: unique_ids_def)
    ultimately show ?thesis using assms(1) by (simp add: unique_ids_def)
  next
    case False
    with assms(2) nodup have ms': "ms' = ms @ [m]"
      by (auto simp: save_message_def list_ex_iff split: if_splits)
    from False have "\<forall>d\<in>set ms. message_id d \<noteq> message_id m"
      by (simp add: notin_image_conv)
    with nodup have "\<forall>d\<in>set ms. whatsappMessageId d \<noteq> whatsappMessageId m" by simp
    with False assms(1) show ?thesis unfolding ms'
      by (simp add: unique_ids_def notin_image_conv)
  qed
qed

lemma check_word_messages: "messages (check_word w t usr wrd s) = messages s"
  by (simp add: check_word_def Let_def split: option.splits)

lemma fold_check_word_messages: "messages (fold (check_word w t usr) wrds s) = messages s"
  by (induction wrds arbitrary: s) (simp_all add: check_word_messages)

lemma checkForNewWords_messages:
  "checkForNewWords w text usr s = Inr s' \<Longrightarrow> messages s' = messages s"
  by (auto simp: checkForNewWords_def fold_check_word_messages split: option.splits)

lemma processTextMessage_messages:
  "messages (snd (processTextMessage w msg usr s)) = messages s"
  by (auto simp: processTextMessage_def Let_def log_call_def checkForNewWords_messages
      split: sum.splits option.splits)

lemma processMediaMessage_messages:
  "messages (snd (processMediaMessage w msg usr s)) = messages s"
  by (simp add: processMediaMessage_def Let_def log_call_def split: option.splits prod.splits)

lemma processTextMessage_messages_eq:
  assumes "processTextMessage w msg usr s = (r, s1)"
  shows "messages s1 = messages s"
  using processTextMessage_messages [of w msg usr s] assms by simp

lemma processAudioMessage_messages:
  assumes "processAudioMessage w msg usr s = (r, msg1, s1)"
  shows "messages s1 = messages s \<and> message_id msg1 = message_id msg \<and>
         whatsappMessageId msg1 = whatsappMessageId msg \<and> response msg1 = response msg"
proof (cases "downloadMedia w (mediaId (content msg))")
  case None
  with assms show ?thesis by (auto simp: processAudioMessage_def log_call_def)
next
  case (Some audioData)
  note dl = this
  show ?thesis
  proof (cases "transcribeAudio w audioData")
    case None
    with assms dl show ?thesis by (auto simp: processAudioMessage_def log_call_def)
  next
    case (Some tr)
    define msg' where "msg' = msg\<lparr>transcription := Some
        \<lparr>tr_text = whisper_text tr, tr_confidence = 0.8,
         tr_language = (case whisper_language tr of None \<Rightarrow> ''en''
                        | Some l \<Rightarrow> if l = [] then ''en'' else l)\<rparr>\<rparr>"
    define s2 where "s2 = log_call (CallTranscribeAudio audioData)
        (log_call (CallDownloadMedia (mediaId (content msg))) s)"
    obtain r' s3 where pt: "processTextMessage w msg' usr s2 = (r', s3)"
      by (cases "processTextMessage w msg' usr s2") auto
    from processTextMessage_messages_eq [OF pt] have m3: "messages s3 = messages s"
      by (simp add: s2_def log_call_def)
    from assms have "s1 = s3 \<and> msg1 = msg'"
      unfolding processAudioMessage_def Let_def dl Some option.case
        msg'_def [symmetric] s2_def [symmetric] pt
      by (auto split: sum.splits if_splits)
    with m3 show ?thesis by (simp add: msg'_def)
  qed
qed

lemma moderate_messages:
  assumes "moderate w msg usr s = (r, msg1, s1)"
  shows "messages s1 = messages s \<and> message_id msg1 = message_id msg \<and>
         whatsappMessageId msg1 = whatsappMessageId msg \<and> response msg1 = response msg"
proof (cases "messageType msg")
  case Text
  with assms processTextMessage_messages [of w msg usr s] show ?thesis
    by (auto simp: moderate_def split: prod.splits)
next
  case Image
  with assms processMediaMessage_messages [of w msg usr s] show ?thesis
    by (auto simp: moderate_def split: prod.splits)
next
  case Video
  with assms processMediaMessage_messages [of w msg usr s] show ?thesis
    by (auto simp: moderate_def split: prod.splits)
next
  case Audio
  with assms processAudioMessage_messages [of w msg usr s] show ?thesis
    by (auto simp: moderate_def split: prod.splits)
next
  case Document
  with assms show ?thesis by (simp add: moderate_def)
qed

lemma new_message_ids:
  "message_id (new_message usr md s) \<notin> message_id ` set (messages s)"
  "whatsappMessageId (new_message usr md s) = md_id md"
  "response (new_message usr md s) = None"
  using fresh_id_notin [of "map message_id (messages s)"] by (simp_all add: new_message_def)

lemma handleApprovedMessage_unique_ids:
  assumes "unique_ids (messages s)"
  shows "unique_ids (messages (snd (handleApprovedMessage msg usr s)))"
proof (cases "save_message (msg\<lparr>metadata_status := ''delivered''\<rparr>) (messages s)")
  case (Inl e)
  with assms show ?thesis by (simp add: handleApprovedMessage_def)
next
  case (Inr ms)
  with assms save_message_unique_ids [OF assms Inr] show ?thesis
    by (simp add: handleApprovedMessage_def)
qed

lemma handleBlockedMessage_unique_ids:
  assumes "unique_ids (messages s)"
  shows "unique_ids (messages (snd (handleBlockedMessage w msg usr s)))"
proof (cases "autoBlock (moderationSettings usr)")
  case False
  with assms show ?thesis by (simp add: handleBlockedMessage_def)
next
  case True
  note ab = this
  show ?thesis
  proof (cases "sendTextMessage w (msg_from msg) (responseText (reason (moderation msg)))")
    case None
    with assms ab show ?thesis by (simp add: handleBlockedMessage_def Let_def log_call_def)
  next
    case (Some sentId)
    show ?thesis
    proof (cases "save_message (msg\<lparr>response := Some \<lparr>sent = True,
        response_messageId = sentId, response_content = ContentObject,
        sentAt = now w\<rparr>\<rparr>) (messages s)")
      case (Inl e)
      with assms ab Some show ?thesis
        by (simp add: handleBlockedMessage_def Let_def log_call_def)
    next
      case (Inr ms)
      with assms ab Some save_message_unique_ids [OF assms Inr] show ?thesis
        by (simp add: handleBlockedMessage_def Let_def log_call_def)
    qed
  qed
qed

text \<open>When the reply to a blocked message is sent, the save that should record it fails,
  because the content assigned is an object: the reply is never recorded, and the
  exception ends the processing of the message.\<close>

lemma handleBlockedMessage_reply_not_recorded:
  assumes "autoBlock (moderationSettings usr)"
    and "sendTextMessage w (msg_from msg) (responseText (reason (moderation msg))) = Some sentId"
  shows "handleBlockedMessage w msg usr s =
           (Inl ValidationError,
            log_call (CallSendText (msg_from msg) (responseText (reason (moderation msg)))) s)"
  using assms
  by (simp add: handleBlockedMessage_def Let_def save_message_def valid_message_def)

lemma processIncomingMessage_unique_ids:
  assumes "unique_ids (messages s)"
  shows "unique_ids (messages (processIncomingMessage w users md s))"
proof (cases "find_user (md_to md) users")
  case None
  with assms show ?thesis by (simp add: processIncomingMessage_def)
next
  case (Some usr)
  obtain r msg1 s1 where mo: "moderate w (new_message usr md s) usr s = (r, msg1, s1)"
    by (cases "moderate w (new_message usr md s) usr s") auto
  from moderate_messages [OF mo] have ms1: "messages s1 = messages s" by simp
  show ?thesis
  proof (cases r)
    case (Inl e)
    with Some mo ms1 assms show ?thesis by (simp add: processIncomingMessage_def)
  next
    case (Inr v)
    note r = this
    show ?thesis
    proof (cases "save_message (msg1\<lparr>moderation := v\<rparr>) (messages s1)")
      case (Inl e)
      with Some mo ms1 r assms show ?thesis by (simp add: processIncomingMessage_def)
    next
      case (Inr ms)
      from assms ms1 have "unique_ids (messages s1)" by simp
      from save_message_unique_ids [OF this Inr]
      have u: "unique_ids (messages (s1\<lparr>messages := ms\<rparr>))" by simp
      from Some mo r Inr
        handleBlockedMessage_unique_ids [OF u, of w "msg1\<lparr>moderation := v\<rparr>" usr]
        handleApprovedMessage_unique_ids [OF u, of "msg1\<lparr>moderation := v\<rparr>" usr]
      show ?thesis by (simp add: processIncomingMessage_def Let_def)
    qed
  qed
qed

lemma process_all_unique_ids:
  "unique_ids (messages s) \<Longrightarrow> unique_ids (messages (process_all users batch s))"
proof (induction batch arbitrary: s)
  case Nil
  then show ?case by simp
next
  case (Cons a batch)
  obtain w md where a: "a = (w, md)" by (cases a)
  from Cons.prems have "unique_ids (messages (processIncomingMessage w users md s))"
    by (rule processIncomingMessage_unique_ids)
  then show ?case unfolding a by (simp add: Cons.IH)
qed

lemma processIncomingMessage_redelivery:
  assumes "md_id md \<in> whatsappMessageId ` set (messages s)"
  shows "messages (processIncomingMessage w users md s) = messages s"
proof (cases "find_user (md_to md) users")
  case None
  then show ?thesis by (simp add: processIncomingMessage_def)
next
  case (Some usr)
  obtain r msg1 s1 where mo: "moderate w (new_message usr md s) usr s = (r, msg1, s1)"
    by (cases "moderate w (new_message usr md s) usr s") auto
  from moderate_messages [OF mo] new_message_ids [of usr md s]
  have ms1: "messages s1 = messages s"
    and id1: "message_id msg1 \<notin> message_id ` set (messages s)"
    and wid1: "whatsappMessageId msg1 = md_id md" by simp_all
  show ?thesis
  proof (cases r)
    case (Inl e)
    with Some mo ms1 show ?thesis by (simp add: processIncomingMessage_def)
  next
    case (Inr v)
    have "\<exists>e. save_message (msg1\<lparr>moderation := v\<rparr>) (messages s1) = Inl e"
      unfolding ms1 using id1 wid1 assms by (intro save_message_duplicate) simp_all
    with Some mo Inr ms1 show ?thesis by (auto simp: processIncomingMessage_def)
  qed
qed

lemma processIncomingMessage_stored:
  assumes "find_user (md_to md) users = Some usr"
    and "moderate w (new_message usr md s) usr s = (Inr v, msg1, s1)"
    and "status v \<noteq> Blocked"
    and "md_id md \<notin> whatsappMessageId ` set (messages s)"
  shows "processIncomingMessage w users md s =
           s1\<lparr>messages := messages s @ [msg1\<lparr>moderation := v, metadata_status := ''delivered''\<rparr>]\<rparr>"
proof -
  from moderate_messages [OF assms(2)] new_message_ids [of usr md s]
  have ms1: "messages s1 = messages s"
    and id1: "message_id msg1 \<notin> message_id ` set (messages s)"
    and wid1: "whatsappMessageId msg1 = md_id md"
    and rs1: "response msg1 = None" by simp_all
  let ?msg2 = "msg1\<lparr>moderation := v\<rparr>"
  have sv: "save_message ?msg2 (messages s1) = Inr (messages s @ [?msg2])"
    unfolding ms1 using id1 wid1 rs1 assms(4)
    by (intro save_message_new) (simp_all add: valid_message_def)
  have up: "save_message (?msg2\<lparr>metadata_status := ''delivered''\<rparr>) (messages s @ [?msg2]) =
      Inr (messages s @ [?msg2\<lparr>metadata_status := ''delivered''\<rparr>])"
    using id1 wid1 rs1 assms(4)
    by (intro save_message_update_last) (simp_all add: valid_message_def)
  from assms(1,2,3) sv up show ?thesis
    by (simp add: processIncomingMessage_def handleApprovedMessage_def Let_def)
qed

lemma processAudioMessage_failure:
  assumes "downloadMedia w (mediaId (content msg)) = None \<or>
           (\<exists>audioData. downloadMedia w (mediaId (content msg)) = Some audioData \<and>
                         transcribeAudio w audioData = None)"
  shows "processAudioMessage w msg usr s =
           ((result_of Error)\<lparr>reason := Some
               (case downloadMedia w (mediaId (content msg)) of
                  None \<Rightarrow> ''audio_download_failed''
                | Some audioData \<Rightarrow> ''transcription_failed'')\<rparr>,
            msg,
            s\<lparr>calls := calls s @ CallDownloadMedia (mediaId (content msg)) #
                 (case downloadMedia w (mediaId (content msg)) of
                    None \<Rightarrow> []
                  | Some audioData \<Rightarrow> [CallTranscribeAudio audioData])\<rparr>)"
  using assms by (auto simp: processAudioMessage_def log_call_def)

text \<open>
  Claim C8: the collection never holds two messages with one \<open>whatsappMessageId\<close>: every
  single write keeps the identifiers unique, and so does the processing of one message and
  of any sequence of messages. Processing a message whose provider id is already stored
  leaves the stored messages, and so their verdicts, as they are.
\<close>

theorem redelivery_creates_no_second_message:
  assumes "unique_ids (messages s)"
  shows "(\<forall>m ms'. save_message m (messages s) = Inr ms' \<longrightarrow> unique_ids ms') \<and>
         unique_ids (messages (processIncomingMessage w users md s)) \<and>
         unique_ids (messages (process_all users batch s)) \<and>
         (md_id md \<in> whatsappMessageId ` set (messages s) \<longrightarrow>
            messages (processIncomingMessage w users md s) = messages s)"
proof (intro conjI allI impI)
  fix m ms'
  assume "save_message m (messages s) = Inr ms'"
  with assms show "unique_ids ms'" by (rule save_message_unique_ids)
next
  from assms show "unique_ids (messages (processIncomingMessage w users md s))"
    by (rule processIncomingMessage_unique_ids)
next
  from assms show "unique_ids (messages (process_all users batch s))"
    by (rule process_all_unique_ids)
next
  assume "md_id md \<in> whatsappMessageId ` set (messages s)"
  then show "messages (processIncomingMessage w users md s) = messages s"
    by (rule processIncomingMessage_redelivery)
qed

theorem redelivery_creates_no_second_message_witness:
  "unique_ids (messages example_stored_state) \<and>
   md_id (example_data Text (Some (js ''hello''))) \<in>
     whatsappMessageId ` set (messages example_stored_state) \<and>
   messages (processIncomingMessage example_world [example_user]
       (example_data Text (Some (js ''hello''))) example_stored_state) =
     messages example_stored_state \<and>
   unique_ids (messages (process_all [example_user]
       [(example_world, example_data Text (Some (js ''hello''))),
        (example_world, example_data Document None)] example_stored_state))"
proof -
  have 1: "unique_ids (messages example_stored_state)"
    by (simp add: example_stored_state_def unique_ids_def)
  have 2: "md_id (example_data Text (Some (js ''hello''))) \<in>
             whatsappMessageId ` set (messages example_stored_state)"
    by (simp add: example_stored_state_def example_data_def new_message_def)
  from redelivery_creates_no_second_message [OF 1, of example_world "[example_user]"
      "example_data Text (Some (js ''hello''))"
      "[(example_world, example_data Text (Some (js ''hello''))),
        (example_world, example_data Document None)]"] 1 2
  show ?thesis by blast
qed

section \<open>Documents and failed transcriptions\<close>

text \<open>
  Claim C7: a document message, addressed to a known user and not stored before, gets the
  verdict approved: the branch on the type returns the verdict with status approved without
  touching the state, and the pipeline stores the message with it. The log of calls is
  unchanged, so no classifier (and no other service) is called, whatever the world and the
  settings are.
\<close>

theorem document_approved:
  assumes "find_user (md_to md) users = Some usr"
    and "md_type md = Document"
    and "md_id md \<notin> whatsappMessageId ` set (messages s)"
  shows "moderate w (new_message usr md s) usr s =
           (Inr \<lparr>status = Approved, reason = None, hateSpeech = None,
                 contentModeration = None, res_transcription = None\<rparr>,
            new_message usr md s, s) \<and>
         processIncomingMessage w users md s =
           s\<lparr>messages := messages s @
               [(new_message usr md s)
                  \<lparr>moderation := \<lparr>status = Approved, reason = None, hateSpeech = None,
                                   contentModeration = None, res_transcription = None\<rparr>,
                   metadata_status := ''delivered''\<rparr>]\<rparr>"
proof -
  let ?v = "\<lparr>status = Approved, reason = None, hateSpeech = None,
             contentModeration = None, res_transcription = None\<rparr>"
  from assms(2) have mo: "moderate w (new_message usr md s) usr s =
      (Inr ?v, new_message usr md s, s)"
    by (simp add: moderate_def new_message_def result_of_def)
  have "status ?v \<noteq> Blocked" by simp
  from processIncomingMessage_stored [OF assms(1) mo this assms(3)] mo show ?thesis by simp
qed

theorem document_approved_witness:
  "processIncomingMessage example_world [example_user] (example_data Document None)
       empty_state =
     \<lparr>messages =
        [(new_message example_user (example_data Document None) empty_state)
           \<lparr>moderation := \<lparr>status = Approved, reason = None, hateSpeech = None,
                            contentModeration = None, res_transcription = None\<rparr>,
            metadata_status := ''delivered''\<rparr>],
      newWords = [], calls = []\<rparr>"
proof -
  have 1: "find_user (md_to (example_data Document None)) [example_user] = Some example_user"
    by (simp add: example_defs find_user_def)
  have 2: "md_type (example_data Document None) = Document"
    by (simp add: example_defs)
  have 3: "md_id (example_data Document None) \<notin>
             whatsappMessageId ` set (messages empty_state)"
    by (simp add: example_defs)
  from document_approved [OF 1 2 3, of example_world] show ?thesis
    by (simp add: empty_state_def)
qed

text \<open>
  Claim C6: an audio message, addressed to a known user and not stored before, whose download
  or transcription fails, is stored with the verdict error. The calls made are the download
  and, when it succeeded, the transcription: no reply is sent and the text classifier is
  not called; the words database is unchanged.
\<close>

theorem failed_transcription_is_error:
  assumes "find_user (md_to md) users = Some usr"
    and "md_type md = Audio"
    and "downloadMedia w (mediaId (extractContent md)) = None \<or>
         (\<exists>audioData. downloadMedia w (mediaId (extractContent md)) = Some audioData \<and>
                       transcribeAudio w audioData = None)"
    and "md_id md \<notin> whatsappMessageId ` set (messages s)"
  shows "processIncomingMessage w users md s =
           s\<lparr>messages := messages s @
               [(new_message usr md s)
                  \<lparr>moderation :=
                     \<lparr>status = Error,
                      reason = Some
                        (case downloadMedia w (mediaId (extractContent md)) of
                           None \<Rightarrow> ''audio_download_failed''
                         | Some audioData \<Rightarrow> ''transcription_failed''),
                      hateSpeech = None, contentModeration = None,
                      res_transcription = None\<rparr>,
                   metadata_status := ''delivered''\<rparr>],
             calls := calls s @ CallDownloadMedia (mediaId (extractContent md)) #
                 (case downloadMedia w (mediaId (extractContent md)) of
                    None \<Rightarrow> []
                  | Some audioData \<Rightarrow> [CallTranscribeAudio audioData])\<rparr>"
proof -
  let ?msg = "new_message usr md s"
  let ?v = "\<lparr>status = Error,
             reason = Some
               (case downloadMedia w (mediaId (extractContent md)) of
                  None \<Rightarrow> ''audio_download_failed''
                | Some audioData \<Rightarrow> ''transcription_failed''),
             hateSpeech = None, contentModeration = None, res_transcription = None\<rparr>"
  have c: "content ?msg = extractContent md" by (simp add: new_message_def)
  from assms(3) have f: "downloadMedia w (mediaId (content ?msg)) = None \<or>
      (\<exists>audioData. downloadMedia w (mediaId (content ?msg)) = Some audioData \<and>
                    transcribeAudio w audioData = None)"
    unfolding c .
  from assms(2) have t: "messageType ?msg = Audio" by (simp add: new_message_def)
  have mo: "moderate w ?msg usr s =
      (Inr ?v, ?msg,
       s\<lparr>calls := calls s @ CallDownloadMedia (mediaId (extractContent md)) #
                 (case downloadMedia w (mediaId (extractContent md)) of
                    None \<Rightarrow> []
                  | Some audioData \<Rightarrow> [CallTranscribeAudio audioData])\<rparr>)"
    unfolding moderate_def t processAudioMessage_failure [OF f, of usr s] c
    by (simp add: result_of_def)
  have "status ?v \<noteq> Blocked" by simp
  from processIncomingMessage_stored [OF assms(1) mo this assms(4)] show ?thesis by simp
qed

theorem failed_transcription_is_error_witness:
  "processIncomingMessage no_transcription_world [example_user]
       (example_data Audio None) empty_state =
     \<lparr>messages =
        [(new_message example_user (example_data Audio None) empty_state)
           \<lparr>moderation := \<lparr>status = Error, reason = Some ''transcription_failed'',
                            hateSpeech = None, contentModeration = None,
                            res_transcription = None\<rparr>,
            metadata_status := ''delivered''\<rparr>],
      newWords = [],
      calls = [CallDownloadMedia (Some ''media.1''), CallTranscribeAudio ''bytes'']\<rparr>"
proof -
  let ?w = "no_transcription_world"
  have 1: "find_user (md_to (example_data Audio None)) [example_user] = Some example_user"
    by (simp add: example_defs find_user_def)
  have 2: "md_type (example_data Audio None) = Audio"
    by (simp add: example_defs)
  have 3: "downloadMedia ?w (mediaId (extractContent (example_data Audio None))) = None \<or>
           (\<exists>audioData.
              downloadMedia ?w (mediaId (extractContent (example_data Audio None))) =
                Some audioData \<and>
              transcribeAudio ?w audioData = None)"
    by (simp add: example_defs)
  have 4: "md_id (example_data Audio None) \<notin> whatsappMessageId ` set (messages empty_state)"
    by (simp add: example_defs)
  from failed_transcription_is_error [OF 1 2 3 4] show ?thesis
    by (simp add: example_defs)
qed

section \<open>Reviewing a candidate word\<close>

lemma find_save_new_word:
  assumes "find_word_by_id wordId uid ws = Some nw"
    and "new_word_id nw' = wordId" and "nw_userId nw' = uid"
  shows "find_word_by_id wordId uid (save_new_word nw' ws) = Some nw'"
proof -
  from assms(1) have "nw \<in> set ws" and "new_word_id nw = wordId"
    by (auto simp: find_word_by_id_def find_Some_iff)
  then have "new_word_id nw' \<in> set (map new_word_id ws)"
    using assms(2) by force
  then have sv: "save_new_word nw' ws =
      map (\<lambda>d. if new_word_id d = new_word_id nw' then nw' else d) ws"
    by (simp add: save_new_word_def)
  from assms show ?thesis unfolding sv find_word_by_id_def
  proof (induction ws)
    case Nil
    then show ?case by simp
  next
    case (Cons d ds)
    then show ?case by (auto split: if_splits)
  qed
qed

lemmas review_defs = review_word_def find_word_by_id_def save_new_word_def
  markAsHateSpeech_def rejectWord_def ignoreWord_def example_word_def

text \<open>
  Claim C9, as stated: a decision on a word that is already decided changes neither its
  status nor its recorded decision. It fails: the handler applies the decision without
  looking at the status. A rejected word that is then approved becomes approved and marked
  as hate speech.
\<close>

theorem decided_word_review_counterexample:
  "nw_status (example_word WordRejected) = WordRejected \<and>
   markedAsHateSpeech (userDecision (example_word WordRejected)) = False \<and>
   review_word 40 1 7 ''approve'' (Some ''it is a slur'') [example_word WordRejected] =
     [(example_word WordRejected)
        \<lparr>nw_status := WordApproved,
         userDecision := \<lparr>markedAsHateSpeech = True, decisionDate = Some 40,
                          decisionReason = Some ''it is a slur''\<rparr>,
         nw_updatedAt := 40\<rparr>]"
  by (simp add: review_defs)

text \<open>
  Claim C9, amended: a decision on a word of the owner always takes effect, whatever the
  status of the word was: the status becomes the one the action names, and the recorded
  decision is replaced by this one (its mark, its date and its reason).
\<close>

theorem review_word_overwrites:
  assumes "find_word_by_id wordId uid ws = Some nw"
    and "action = ''approve'' \<or> action = ''reject'' \<or> action = ''ignore''"
  shows "find_word_by_id wordId uid (review_word t uid wordId action rsn ws) =
         Some (nw\<lparr>nw_status :=
                     (if action = ''approve'' then WordApproved
                      else if action = ''reject'' then WordRejected else WordIgnored),
                   userDecision :=
                     \<lparr>markedAsHateSpeech = (action = ''approve''), decisionDate = Some t,
                      decisionReason = Some (case rsn of None \<Rightarrow> [] | Some x \<Rightarrow> x)\<rparr>,
                   nw_updatedAt := t\<rparr>)"
proof -
  from assms(1) have ids: "new_word_id nw = wordId" "nw_userId nw = uid"
    by (auto simp: find_word_by_id_def find_Some_iff)
  let ?r = "case rsn of None \<Rightarrow> [] | Some x \<Rightarrow> x"
  from assms(2) consider "action = ''approve''" | "action = ''reject''" | "action = ''ignore''"
    by blast
  then show ?thesis
  proof cases
    case 1
    have "find_word_by_id wordId uid
            (save_new_word (markAsHateSpeech t ?r nw) ws) = Some (markAsHateSpeech t ?r nw)"
      using assms(1) ids by (intro find_save_new_word) (simp_all add: markAsHateSpeech_def)
    with 1 assms(1) show ?thesis by (simp add: review_word_def markAsHateSpeech_def)
  next
    case 2
    have "find_word_by_id wordId uid
            (save_new_word (rejectWord t ?r nw) ws) = Some (rejectWord t ?r nw)"
      using assms(1) ids by (intro find_save_new_word) (simp_all add: rejectWord_def)
    with 2 assms(1) show ?thesis by (simp add: review_word_def rejectWord_def)
  next
    case 3
    have "find_word_by_id wordId uid
            (save_new_word (ignoreWord t ?r nw) ws) = Some (ignoreWord t ?r nw)"
      using assms(1) ids by (intro find_save_new_word) (simp_all add: ignoreWord_def)
    with 3 assms(1) show ?thesis by (simp add: review_word_def ignoreWord_def)
  qed
qed

theorem review_word_overwrites_witness:
  "find_word_by_id 7 1
     (review_word 40 1 7 ''ignore'' None [example_word WordApproved]) =
   Some ((example_word WordApproved)
        \<lparr>nw_status := WordIgnored,
         userDecision := \<lparr>markedAsHateSpeech = False, decisionDate = Some 40,
                          decisionReason = Some []\<rparr>,
         nw_updatedAt := 40\<rparr>)"
proof -
  have 1: "find_word_by_id 7 1 [example_word WordApproved] = Some (example_word WordApproved)"
    by (simp add: example_word_def find_word_by_id_def)
  have 2: "''ignore'' = ''approve'' \<or> ''ignore'' = ''reject'' \<or> ''ignore'' = ''ignore''"
    by simp
  from review_word_overwrites [OF 1 2, of 40 None] show ?thesis by simp
qed

end
